theory Spec2Isabelle
  imports Main
begin

section \<open>Bookstore manager: the store, the validators and the sale operations\<close>

text \<open>
  A shallow embedding of \<^verbatim>\<open>bookstore_manager.py\<close>. The SQLite store is a record of three
  tables (lists of rows) and the AUTOINCREMENT counter of the sale table; a connection
  holds the committed store and the store as the open transaction sees it. Console input
  is the list of lines that successive \<^verbatim>\<open>input()\<close> calls return; an operation returns what
  it reported (or the exception that left it), the connection and the unread lines.

  Modelling conventions:
  \<^item> a Python \<^verbatim>\<open>str\<close> is a \<open>string\<close>, read as a sequence of code points below 256; on
    these \<^verbatim>\<open>\d\<close> matches exactly the ten ASCII digits;
  \<^item> integer columns hold Python integers (\<open>int\<close>); an integer that a statement binds
    from user input must fit SQLite's signed 64-bit INTEGER, otherwise the binding raises
    \<^verbatim>\<open>OverflowError\<close>, which is not an \<^verbatim>\<open>sqlite3.Error\<close>;
  \<^item> a store-level error (\<^verbatim>\<open>sqlite3.Error\<close>) is injected by a fault predicate on the
    statements an operation executes: \<open>flt s\<close> says that statement \<open>s\<close> raises one; a
    failing statement has no effect of its own;
  \<^item> messages printed inside re-prompt loops are not recorded, only the final report.
\<close>

subsection \<open>Rows, tables, connection\<close>

record member =
  mid :: string
  mname :: string
  mphone :: string
  memail :: "string option"

record book =
  bid :: string
  btitle :: string
  bprice :: int
  bstock :: int

record sale =
  sid :: int
  sdate :: string
  sale_mid :: string
  sale_bid :: string
  sqty :: int
  sdiscount :: int
  stotal :: int

record db =
  member_tbl :: "member list"
  book_tbl :: "book list"
  sale_tbl :: "sale list"
  sale_seq :: int

record conn =
  committed :: db
  current :: db

text \<open>The exceptions that can leave an operation, and the statements that can fail.\<close>

datatype exn = StoreError | EOFError | TypeError | OverflowError

datatype stmt =
  SelMember | SelBook | SelStock | SelPrice | InsSale | UpdStock | Commit
  | SelReport | SelList | SelSale | UpdSale | DelSale

type_synonym faults = "stmt \<Rightarrow> bool"

definition no_faults :: faults where
  "no_faults = (\<lambda>_. False)"

text \<open>What an operation printed last before it returned.\<close>

datatype outcome =
  SaleAdded int
  | InvalidIds
  | StockShort int
  | StoreErrorReported
  | NoSales
  | Cancelled
  | SaleUpdated int int
  | SaleDeleted int

subsection \<open>Schema bootstrap (\<^verbatim>\<open>initialize_db\<close>)\<close>

definition seed_db :: db where
  "seed_db = \<lparr>
     member_tbl =
       [\<lparr>mid = ''M001'', mname = ''Alice'', mphone = ''0912-345678'',
          memail = Some ''alice@example.com''\<rparr>,
        \<lparr>mid = ''M002'', mname = ''Bob'', mphone = ''0923-456789'',
          memail = Some ''bob@example.com''\<rparr>,
        \<lparr>mid = ''M003'', mname = ''Cathy'', mphone = ''0934-567890'',
          memail = Some ''cathy@example.com''\<rparr>],
     book_tbl =
       [\<lparr>bid = ''B001'', btitle = ''Python Programming'', bprice = 600, bstock = 50\<rparr>,
        \<lparr>bid = ''B002'', btitle = ''Data Science Basics'', bprice = 800, bstock = 30\<rparr>,
        \<lparr>bid = ''B003'', btitle = ''Machine Learning Guide'', bprice = 1200, bstock = 20\<rparr>],
     sale_tbl =
       [\<lparr>sid = 1, sdate = ''2024-01-15'', sale_mid = ''M001'', sale_bid = ''B001'',
          sqty = 2, sdiscount = 100, stotal = 1100\<rparr>,
        \<lparr>sid = 2, sdate = ''2024-01-16'', sale_mid = ''M002'', sale_bid = ''B002'',
          sqty = 1, sdiscount = 50, stotal = 750\<rparr>,
        \<lparr>sid = 3, sdate = ''2024-01-17'', sale_mid = ''M001'', sale_bid = ''B003'',
          sqty = 3, sdiscount = 200, stotal = 3400\<rparr>,
        \<lparr>sid = 4, sdate = ''2024-01-18'', sale_mid = ''M003'', sale_bid = ''B001'',
          sqty = 1, sdiscount = 0, stotal = 600\<rparr>],
     sale_seq = 4\<rparr>"

text \<open>
  The store file either has no \<^verbatim>\<open>sale\<close> table yet (\<open>None\<close>) or holds the three tables.
  \<^verbatim>\<open>initialize_db\<close> seeds the former and leaves the latter alone.
\<close>

definition initialize_db :: "db option \<Rightarrow> db" where
  "initialize_db file = (case file of None \<Rightarrow> seed_db | Some d \<Rightarrow> d)"

definition connect_db :: "db \<Rightarrow> conn" where
  "connect_db d = \<lparr>committed = d, current = d\<rparr>"

definition initial_conn :: conn where
  "initial_conn = connect_db (initialize_db None)"

subsection \<open>Transactions\<close>

definition commit :: "faults \<Rightarrow> conn \<Rightarrow> exn + conn" where
  "commit flt c = (if flt Commit then Inl StoreError else Inr (c\<lparr>committed := current c\<rparr>))"

definition rollback :: "conn \<Rightarrow> conn" where
  "rollback c = c\<lparr>current := committed c\<rparr>"

subsection \<open>Validators\<close>

text \<open>
  \<^verbatim>\<open>DATE_PATTERN = r"^\d{4}-\d{2}-\d{2}$"\<close>, applied with \<^verbatim>\<open>re.match\<close>. The pattern has no
  alternative and no variable repetition, so matching is one left-to-right pass.
  Without the MULTILINE flag, \<^verbatim>\<open>$\<close> matches at the end of the string and also just before
  a newline that is the last character of the string.
\<close>

definition is_digit :: "char \<Rightarrow> bool" where
  "is_digit c = (c \<in> set ''0123456789'')"

fun match_digits :: "nat \<Rightarrow> string \<Rightarrow> string option" where
  "match_digits 0 s = Some s"
| "match_digits (Suc n) [] = None"
| "match_digits (Suc n) (c # s) = (if is_digit c then match_digits n s else None)"

fun match_char :: "char \<Rightarrow> string \<Rightarrow> string option" where
  "match_char c [] = None"
| "match_char c (d # s) = (if d = c then Some s else None)"

definition match_dollar :: "string \<Rightarrow> bool" where
  "match_dollar s = (s = [] \<or> s = [CHR 0x0A])"

definition validate_date :: "string \<Rightarrow> bool" where
  "validate_date date =
     (case Option.bind (Option.bind (Option.bind (Option.bind
             (match_digits 4 date) (match_char CHR ''-''))
             (match_digits 2)) (match_char CHR ''-'')) (match_digits 2) of
        None \<Rightarrow> False
      | Some rest \<Rightarrow> match_dollar rest)"

text \<open>
  Row lookups. \<^verbatim>\<open>fetchone()\<close> yields the first matching row or \<^verbatim>\<open>None\<close>. The two
  existence checks of \<^verbatim>\<open>add_sale\<close> are joined by Python's short-circuit \<^verbatim>\<open>and\<close>: the book
  is looked up only when the member exists.
\<close>

definition check_member_exists :: "faults \<Rightarrow> conn \<Rightarrow> string \<Rightarrow> exn + bool" where
  "check_member_exists flt c m =
     (if flt SelMember then Inl StoreError
      else Inr (find (\<lambda>r. mid r = m) (member_tbl (current c)) \<noteq> None))"

definition check_book_exists :: "faults \<Rightarrow> conn \<Rightarrow> string \<Rightarrow> exn + bool" where
  "check_book_exists flt c b =
     (if flt SelBook then Inl StoreError
      else Inr (find (\<lambda>r. bid r = b) (book_tbl (current c)) \<noteq> None))"

definition check_book_stock :: "faults \<Rightarrow> conn \<Rightarrow> string \<Rightarrow> int \<Rightarrow> exn + (bool \<times> int)" where
  "check_book_stock flt c b qty =
     (if flt SelStock then Inl StoreError
      else Inr (case find (\<lambda>r. bid r = b) (book_tbl (current c)) of
                  None \<Rightarrow> (False, 0)
                | Some row \<Rightarrow> if bstock row \<ge> qty then (True, bstock row)
                              else (False, bstock row)))"

definition get_book_price :: "faults \<Rightarrow> conn \<Rightarrow> string \<Rightarrow> exn + int" where
  "get_book_price flt c b =
     (if flt SelPrice then Inl StoreError
      else Inr (case find (\<lambda>r. bid r = b) (book_tbl (current c)) of
                  None \<Rightarrow> 0
                | Some row \<Rightarrow> bprice row))"

definition valid_ids :: "faults \<Rightarrow> conn \<Rightarrow> string \<Rightarrow> string \<Rightarrow> exn + bool" where
  "valid_ids flt c m b =
     (case check_member_exists flt c m of
        Inl e \<Rightarrow> Inl e
      | Inr found \<Rightarrow> if found then check_book_exists flt c b else Inr False)"

subsection \<open>Console input\<close>

text \<open>
  Python's \<^verbatim>\<open>int(s)\<close> in base ten: surrounding whitespace is dropped (tab, line feed,
  vertical tab, form feed, carriage return, space, and of the code points from 128 to 255
  the next-line and no-break-space characters), one sign is allowed, then digits, where
  single underscores may stand between two digits. Anything else is a \<^verbatim>\<open>ValueError\<close>
  (\<open>None\<close>), and so is a numeral of more than 4300 digit characters (the default limit of
  CPython on converting a string to an integer; sign, underscores and whitespace do not
  count, leading zeros do).
\<close>

definition max_str_digits :: nat where
  "max_str_digits = 4300"

definition is_space :: "char \<Rightarrow> bool" where
  "is_space c = (c \<in> set [CHR 0x09, CHR 0x0A, CHR 0x0B, CHR 0x0C, CHR 0x0D, CHR 0x20,
                            CHR 0x85, CHR 0xA0])"

definition strip :: "string \<Rightarrow> string" where
  "strip s = rev (dropWhile is_space (rev (dropWhile is_space s)))"

definition digit_val :: "char \<Rightarrow> int" where
  "digit_val c = int (of_char c) - 48"

fun parse_digits :: "int \<Rightarrow> string \<Rightarrow> int option" where
  "parse_digits acc [] = Some acc"
| "parse_digits acc [c] = (if is_digit c then Some (acc * 10 + digit_val c) else None)"
| "parse_digits acc (c # d # s) =
     (if is_digit c then parse_digits (acc * 10 + digit_val c) (d # s)
      else if c = CHR ''_'' \<and> is_digit d then parse_digits (acc * 10 + digit_val d) s
      else None)"

definition parse_unsigned :: "string \<Rightarrow> int option" where
  "parse_unsigned s =
     (if length (filter is_digit s) > max_str_digits then None
      else case s of
             [] \<Rightarrow> None
           | c # r \<Rightarrow> if is_digit c then parse_digits (digit_val c) r else None)"

definition py_int :: "string \<Rightarrow> int option" where
  "py_int s =
     (case strip s of
        [] \<Rightarrow> None
      | c # r \<Rightarrow> if c = CHR ''-'' then map_option uminus (parse_unsigned r)
                 else if c = CHR ''+'' then parse_unsigned r
                 else parse_unsigned (c # r))"

text \<open>
  The re-prompt loops. Each consumes lines until one is accepted; running out of lines is
  \<^verbatim>\<open>EOFError\<close> from \<^verbatim>\<open>input()\<close>, which no handler of the program catches.
\<close>

fun read_date :: "string list \<Rightarrow> (string \<times> string list) option" where
  "read_date [] = None"
| "read_date (l # ls) = (if validate_date l then Some (l, ls) else read_date ls)"

fun read_qty :: "string list \<Rightarrow> (int \<times> string list) option" where
  "read_qty [] = None"
| "read_qty (l # ls) =
     (case py_int l of
        None \<Rightarrow> read_qty ls
      | Some n \<Rightarrow> if n \<le> 0 then read_qty ls else Some (n, ls))"

fun read_discount :: "string list \<Rightarrow> (int \<times> string list) option" where
  "read_discount [] = None"
| "read_discount (l # ls) =
     (case py_int l of
        None \<Rightarrow> read_discount ls
      | Some n \<Rightarrow> if n < 0 then read_discount ls else Some (n, ls))"

text \<open>
  The selection loop shared by update and delete: an empty line cancels, a line that is
  not an integer or whose index is out of range is asked again.
\<close>

fun read_choice :: "nat \<Rightarrow> string list \<Rightarrow> (nat option \<times> string list) option" where
  "read_choice n [] = None"
| "read_choice n (l # ls) =
     (if l = [] then Some (None, ls)
      else case py_int l of
             None \<Rightarrow> read_choice n ls
           | Some v \<Rightarrow> let idx = v - 1 in
                       if idx < 0 \<or> idx \<ge> int n then read_choice n ls
                       else Some (Some (nat idx), ls))"

subsection \<open>Statements that write\<close>

text \<open>
  The sale table's key is \<^verbatim>\<open>INTEGER PRIMARY KEY AUTOINCREMENT\<close>: a new row gets one more
  than the largest key the table ever held, which the store keeps in a counter.

  The INSERT of \<^verbatim>\<open>add_sale\<close> binds the quantity, the discount and the total, the UPDATE of
  \<^verbatim>\<open>update_sale\<close> the new discount and the new total: each must fit 64 bits, otherwise
  \<^verbatim>\<open>execute\<close> raises \<^verbatim>\<open>OverflowError\<close> and nothing is written. (The stock update of
  \<^verbatim>\<open>add_sale\<close> binds the quantity the INSERT has bound before it, and keys are bound as
  they were read from the store.)
\<close>

definition in_int64 :: "int \<Rightarrow> bool" where
  "in_int64 n = (- 9223372036854775808 \<le> n \<and> n \<le> 9223372036854775807)"

definition next_sid :: "db \<Rightarrow> int" where
  "next_sid d = max (sale_seq d) (fold max (map sid (sale_tbl d)) 0) + 1"

definition insert_sale ::
  "faults \<Rightarrow> conn \<Rightarrow> string \<Rightarrow> string \<Rightarrow> string \<Rightarrow> int \<Rightarrow> int \<Rightarrow> int \<Rightarrow> exn + conn" where
  "insert_sale flt c d m b q disc amount =
     (if flt InsSale then Inl StoreError
      else if \<not> (in_int64 q \<and> in_int64 disc \<and> in_int64 amount) then Inl OverflowError
      else let n = next_sid (current c) in
        Inr (c\<lparr>current := (current c)\<lparr>
               sale_tbl := sale_tbl (current c) @
                 [\<lparr>sid = n, sdate = d, sale_mid = m, sale_bid = b,
                   sqty = q, sdiscount = disc, stotal = amount\<rparr>],
               sale_seq := n\<rparr>\<rparr>))"

definition decrease_stock :: "faults \<Rightarrow> conn \<Rightarrow> int \<Rightarrow> string \<Rightarrow> exn + conn" where
  "decrease_stock flt c q b =
     (if flt UpdStock then Inl StoreError
      else Inr (c\<lparr>current := (current c)\<lparr>
             book_tbl := map (\<lambda>r. if bid r = b then r\<lparr>bstock := bstock r - q\<rparr> else r)
                             (book_tbl (current c))\<rparr>\<rparr>))"

definition set_discount :: "faults \<Rightarrow> conn \<Rightarrow> int \<Rightarrow> int \<Rightarrow> int \<Rightarrow> exn + conn" where
  "set_discount flt c disc amount k =
     (if flt UpdSale then Inl StoreError
      else if \<not> (in_int64 disc \<and> in_int64 amount) then Inl OverflowError
      else Inr (c\<lparr>current := (current c)\<lparr>
             sale_tbl := map (\<lambda>r. if sid r = k then r\<lparr>sdiscount := disc, stotal := amount\<rparr>
                                   else r)
                             (sale_tbl (current c))\<rparr>\<rparr>))"

definition delete_row :: "faults \<Rightarrow> conn \<Rightarrow> int \<Rightarrow> exn + conn" where
  "delete_row flt c k =
     (if flt DelSale then Inl StoreError
      else Inr (c\<lparr>current := (current c)\<lparr>
             sale_tbl := filter (\<lambda>r. sid r \<noteq> k) (sale_tbl (current c))\<rparr>\<rparr>))"

subsection \<open>\<^verbatim>\<open>add_sale\<close>\<close>

text \<open>
  The handler \<^verbatim>\<open>except sqlite3.Error\<close> of \<^verbatim>\<open>add_sale\<close> and \<^verbatim>\<open>update_sale\<close>: a store error
  is caught, the transaction rolled back and the error printed; any other exception
  leaves the function with the connection as it is.
\<close>

definition except_store_error :: "exn \<Rightarrow> conn \<Rightarrow> (exn + outcome) \<times> conn" where
  "except_store_error e c =
     (if e = StoreError then (Inr StoreErrorReported, rollback c) else (Inl e, c))"

text \<open>The \<^verbatim>\<open>try\<close> block of \<^verbatim>\<open>add_sale\<close>: insert, decrement, commit, under that handler.\<close>

definition add_sale_write ::
  "faults \<Rightarrow> conn \<Rightarrow> string \<Rightarrow> string \<Rightarrow> string \<Rightarrow> int \<Rightarrow> int \<Rightarrow> int
     \<Rightarrow> (exn + outcome) \<times> conn" where
  "add_sale_write flt c d m b q disc amount =
     (case insert_sale flt c d m b q disc amount of
        Inl e \<Rightarrow> except_store_error e c
      | Inr c1 \<Rightarrow>
          (case decrease_stock flt c1 q b of
             Inl e \<Rightarrow> except_store_error e c1
           | Inr c2 \<Rightarrow>
               (case commit flt c2 of
                  Inl e \<Rightarrow> except_store_error e c2
                | Inr c3 \<Rightarrow> (Inr (SaleAdded amount), c3))))"

text \<open>
  Lines 125 to 147: what \<^verbatim>\<open>add_sale\<close> does once every prompt has been answered. The
  lookups stand outside the \<^verbatim>\<open>try\<close> block, so a store error in one of them leaves the
  function.
\<close>

definition add_sale_body ::
  "faults \<Rightarrow> conn \<Rightarrow> string \<Rightarrow> string \<Rightarrow> string \<Rightarrow> bool \<Rightarrow> int \<Rightarrow> int \<Rightarrow> (exn + outcome) \<times> conn"
  where
  "add_sale_body flt c d m b ids_ok q disc =
     (if \<not> ids_ok then (Inr InvalidIds, c)
      else
        (case check_book_stock flt c b q of
           Inl e \<Rightarrow> (Inl e, c)
         | Inr (stock_ok, current_stock) \<Rightarrow>
             if \<not> stock_ok then (Inr (StockShort current_stock), c)
             else
               (case get_book_price flt c b of
                  Inl e \<Rightarrow> (Inl e, c)
                | Inr price \<Rightarrow> add_sale_write flt c d m b q disc (price * q - disc))))"

text \<open>
  Lines 99 to 124: the prompts, with the existence checks made between the book id and
  the quantity.
\<close>

definition add_sale ::
  "faults \<Rightarrow> conn \<Rightarrow> string list \<Rightarrow> (exn + outcome) \<times> conn \<times> string list" where
  "add_sale flt c inp =
     (case read_date inp of
        None \<Rightarrow> (Inl EOFError, c, [])
      | Some (d, []) \<Rightarrow> (Inl EOFError, c, [])
      | Some (d, [m]) \<Rightarrow> (Inl EOFError, c, [])
      | Some (d, m # b # inp1) \<Rightarrow>
          (case valid_ids flt c m b of
             Inl e \<Rightarrow> (Inl e, c, inp1)
           | Inr ids_ok \<Rightarrow>
               (case read_qty inp1 of
                  None \<Rightarrow> (Inl EOFError, c, [])
                | Some (q, inp2) \<Rightarrow>
                    (case read_discount inp2 of
                       None \<Rightarrow> (Inl EOFError, c, [])
                     | Some (disc, rest) \<Rightarrow>
                         (case add_sale_body flt c d m b ids_ok q disc of
                            (r, c') \<Rightarrow> (r, c', rest))))))"

subsection \<open>Report and list views\<close>

record report_row =
  r_sid :: int
  r_sdate :: string
  r_mname :: string
  r_btitle :: string
  r_bprice :: int
  r_sqty :: int
  r_sdiscount :: int
  r_stotal :: int

definition print_sale_report :: "faults \<Rightarrow> conn \<Rightarrow> exn + report_row list" where
  "print_sale_report flt c =
     (if flt SelReport then Inl StoreError
      else Inr (sort_key r_sid
             (concat (map (\<lambda>s.
                concat (map (\<lambda>m.
                  map (\<lambda>b. \<lparr>r_sid = sid s, r_sdate = sdate s, r_mname = mname m,
                             r_btitle = btitle b, r_bprice = bprice b, r_sqty = sqty s,
                             r_sdiscount = sdiscount s, r_stotal = stotal s\<rparr>)
                      (filter (\<lambda>b. sale_bid s = bid b) (book_tbl (current c))))
                  (filter (\<lambda>m. sale_mid s = mid m) (member_tbl (current c)))))
                (sale_tbl (current c))))))"

record list_row =
  l_sid :: int
  l_sdate :: string
  l_mname :: string

definition get_sales_list :: "faults \<Rightarrow> conn \<Rightarrow> exn + list_row list" where
  "get_sales_list flt c =
     (if flt SelList then Inl StoreError
      else Inr (sort_key l_sid
             (concat (map (\<lambda>s.
                map (\<lambda>m. \<lparr>l_sid = sid s, l_sdate = sdate s, l_mname = mname m\<rparr>)
                    (filter (\<lambda>m. sale_mid s = mid m) (member_tbl (current c))))
                (sale_tbl (current c))))))"

subsection \<open>\<^verbatim>\<open>update_sale\<close>\<close>

text \<open>
  The lookup of the selected sale joined with its book; \<^verbatim>\<open>fetchone()\<close> gives the first row
  of the join or \<^verbatim>\<open>None\<close>.
\<close>

definition select_sale :: "faults \<Rightarrow> conn \<Rightarrow> int \<Rightarrow> exn + (sale \<times> int) option" where
  "select_sale flt c k =
     (if flt SelSale then Inl StoreError
      else Inr (case concat (map (\<lambda>s. map (\<lambda>b. (s, bprice b))
                                        (filter (\<lambda>b. sale_bid s = bid b) (book_tbl (current c))))
                             (filter (\<lambda>s. sid s = k) (sale_tbl (current c)))) of
                  [] \<Rightarrow> None
                | r # _ \<Rightarrow> Some r))"

text \<open>
  Lines 211 to 241, once a valid index has been chosen. Store errors are caught here and
  rolled back. Subscripting a missing row is a \<^verbatim>\<open>TypeError\<close>, raised after the discount
  has been read; neither it nor an \<^verbatim>\<open>OverflowError\<close> of the UPDATE is caught.
\<close>

definition update_selected ::
  "faults \<Rightarrow> conn \<Rightarrow> int \<Rightarrow> string list \<Rightarrow> (exn + outcome) \<times> conn \<times> string list" where
  "update_selected flt c k inp =
     (case select_sale flt c k of
        Inl e \<Rightarrow> (case except_store_error e c of (r, c') \<Rightarrow> (r, c', inp))
      | Inr row \<Rightarrow>
          (case read_discount inp of
             None \<Rightarrow> (Inl EOFError, c, [])
           | Some (new_discount, rest) \<Rightarrow>
               (case row of
                  None \<Rightarrow> (Inl TypeError, c, rest)
                | Some (s, price) \<Rightarrow>
                    (let new_amount = price * sqty s - new_discount in
                     case set_discount flt c new_discount new_amount k of
                       Inl e \<Rightarrow> (case except_store_error e c of (r, c') \<Rightarrow> (r, c', rest))
                     | Inr c1 \<Rightarrow>
                         (case commit flt c1 of
                            Inl e \<Rightarrow>
                              (case except_store_error e c1 of (r, c') \<Rightarrow> (r, c', rest))
                          | Inr c2 \<Rightarrow> (Inr (SaleUpdated k new_amount), c2, rest))))))"

definition update_sale ::
  "faults \<Rightarrow> conn \<Rightarrow> string list \<Rightarrow> (exn + outcome) \<times> conn \<times> string list" where
  "update_sale flt c inp =
     (case get_sales_list flt c of
        Inl e \<Rightarrow> (Inl e, c, inp)
      | Inr sales \<Rightarrow>
          if sales = [] then (Inr NoSales, c, inp)
          else
            (case read_choice (length sales) inp of
               None \<Rightarrow> (Inl EOFError, c, [])
             | Some (None, rest) \<Rightarrow> (Inr Cancelled, c, rest)
             | Some (Some idx, rest) \<Rightarrow> update_selected flt c (l_sid (sales ! idx)) rest))"

subsection \<open>\<^verbatim>\<open>delete_sale\<close>\<close>

text \<open>
  Lines 260 to 264. The only handler of \<^verbatim>\<open>delete_sale\<close> is for \<^verbatim>\<open>ValueError\<close>, so a store
  error in the DELETE or in the commit leaves the function with the transaction open.
\<close>

definition delete_selected :: "faults \<Rightarrow> conn \<Rightarrow> int \<Rightarrow> (exn + outcome) \<times> conn" where
  "delete_selected flt c k =
     (case delete_row flt c k of
        Inl e \<Rightarrow> (Inl e, c)
      | Inr c1 \<Rightarrow>
          (case commit flt c1 of
             Inl e \<Rightarrow> (Inl e, c1)
           | Inr c2 \<Rightarrow> (Inr (SaleDeleted k), c2)))"

definition delete_sale ::
  "faults \<Rightarrow> conn \<Rightarrow> string list \<Rightarrow> (exn + outcome) \<times> conn \<times> string list" where
  "delete_sale flt c inp =
     (case get_sales_list flt c of
        Inl e \<Rightarrow> (Inl e, c, inp)
      | Inr sales \<Rightarrow>
          if sales = [] then (Inr NoSales, c, inp)
          else
            (case read_choice (length sales) inp of
               None \<Rightarrow> (Inl EOFError, c, [])
             | Some (None, rest) \<Rightarrow> (Inr Cancelled, c, rest)
             | Some (Some idx, rest) \<Rightarrow>
                 (case delete_selected flt c (l_sid (sales ! idx)) of
                    (r, c') \<Rightarrow> (r, c', rest))))"

subsection \<open>Reachable connections\<close>

text \<open>
  The connections the program can hold between two menu choices, over any number of
  process runs on the same store file: the seeded store, then any of the three writing
  operations with any input and any store faults. When an exception leaves \<^verbatim>\<open>main\<close>, the
  \<^verbatim>\<open>with\<close> block rolls the open transaction back; the next run opens what was committed
  and \<^verbatim>\<open>initialize_db\<close> finds the tables in place. A normal exit commits.
\<close>

inductive reachable :: "conn \<Rightarrow> bool" where
  start: "reachable initial_conn"
| after_add: "reachable c \<Longrightarrow> add_sale flt c inp = (r, c', rest) \<Longrightarrow> reachable c'"
| after_update: "reachable c \<Longrightarrow> update_sale flt c inp = (r, c', rest) \<Longrightarrow> reachable c'"
| after_delete: "reachable c \<Longrightarrow> delete_sale flt c inp = (r, c', rest) \<Longrightarrow> reachable c'"
| after_exit: "reachable c \<Longrightarrow> commit flt c = Inr c' \<Longrightarrow> reachable c'"
| after_crash: "reachable c \<Longrightarrow> reachable (connect_db (initialize_db (Some (committed c))))"

subsection \<open>Properties of a store\<close>

text \<open>The key constraints of the schema: \<^verbatim>\<open>bid\<close>, \<^verbatim>\<open>mid\<close> and \<^verbatim>\<open>sid\<close> are primary keys.\<close>

definition keys_ok :: "db \<Rightarrow> bool" where
  "keys_ok d = (distinct (map mid (member_tbl d)) \<and> distinct (map bid (book_tbl d))
                \<and> distinct (map sid (sale_tbl d)))"

definition stock_ok :: "db \<Rightarrow> bool" where
  "stock_ok d = list_all (\<lambda>r. 0 \<le> bstock r) (book_tbl d)"

definition sales_ok :: "db \<Rightarrow> bool" where
  "sales_ok d = list_all (\<lambda>s. 0 < sqty s \<and> 0 \<le> sdiscount s) (sale_tbl d)"

text \<open>Every sale's book reference names a row of the book table.\<close>

definition refs_ok :: "db \<Rightarrow> bool" where
  "refs_ok d = list_all (\<lambda>s. find (\<lambda>r. bid r = sale_bid s) (book_tbl d) \<noteq> None) (sale_tbl d)"

definition db_inv :: "db \<Rightarrow> bool" where
  "db_inv d = (keys_ok d \<and> stock_ok d \<and> sales_ok d \<and> refs_ok d)"

text \<open>
  The date format in the words of the specification: exactly four digits, a dash, two
  digits, a dash and two digits.
\<close>

definition date_shape :: "string \<Rightarrow> bool" where
  "date_shape s =
     (length s = 10 \<and> list_all is_digit (take 4 s) \<and> s ! 4 = CHR ''-''
      \<and> list_all is_digit (take 2 (drop 5 s)) \<and> s ! 7 = CHR ''-''
      \<and> list_all is_digit (drop 8 s))"

section \<open>Verification\<close>

subsection \<open>Prompts\<close>


lemma read_qty_positive: "read_qty inp = Some (q, rest) \<Longrightarrow> 0 < q"
  by (induction inp) (auto split: if_splits option.splits)

lemma read_discount_nonneg: "read_discount inp = Some (disc, rest) \<Longrightarrow> 0 \<le> disc"
  by (induction inp) (auto split: if_splits option.splits)

lemma read_choice_in_range: "read_choice n inp = Some (Some idx, rest) \<Longrightarrow> idx < n"
  by (induction inp) (auto simp: Let_def split: if_splits option.splits)

subsection \<open>Fresh sale keys\<close>

lemma fold_max_ge_init: "(a::int) \<le> fold max xs a"
  by (induction xs arbitrary: a) (auto intro: order_trans [OF max.cobounded2])

lemma fold_max_ge_elem: "x \<in> set xs \<Longrightarrow> (x::int) \<le> fold max xs a"
proof (induction xs arbitrary: a)
  case Nil
  then show ?case by simp
next
  case (Cons y ys)
  show ?case
  proof (cases "x = y")
    case True
    have "y \<le> max y a" by simp
    also have "\<dots> \<le> fold max ys (max y a)" by (rule fold_max_ge_init)
    finally show ?thesis using True by simp
  next
    case False
    with Cons show ?thesis by simp
  qed
qed

lemma next_sid_fresh: "s \<in> set (sale_tbl d) \<Longrightarrow> sid s < next_sid d"
proof -
  assume "s \<in> set (sale_tbl d)"
  then have "sid s \<in> set (map sid (sale_tbl d))" by simp
  then have "sid s \<le> fold max (map sid (sale_tbl d)) 0" by (rule fold_max_ge_elem)
  then show ?thesis by (simp add: next_sid_def)
qed

subsection \<open>Creating a sale\<close>


lemma add_sale_write_ok:
  assumes "\<not> flt InsSale" "\<not> flt UpdStock" "\<not> flt Commit"
    and "in_int64 q" "in_int64 disc" "in_int64 amt"
  shows "add_sale_write flt c d m b q disc amt =
     (Inr (SaleAdded amt),
      \<lparr>committed = (current c)\<lparr>
          book_tbl := map (\<lambda>r. if bid r = b then r\<lparr>bstock := bstock r - q\<rparr> else r)
                          (book_tbl (current c)),
          sale_tbl := sale_tbl (current c) @
                 [\<lparr>sid = next_sid (current c), sdate = d, sale_mid = m, sale_bid = b,
                   sqty = q, sdiscount = disc, stotal = amt\<rparr>],
          sale_seq := next_sid (current c)\<rparr>,
       current = (current c)\<lparr>
          book_tbl := map (\<lambda>r. if bid r = b then r\<lparr>bstock := bstock r - q\<rparr> else r)
                          (book_tbl (current c)),
          sale_tbl := sale_tbl (current c) @
                 [\<lparr>sid = next_sid (current c), sdate = d, sale_mid = m, sale_bid = b,
                   sqty = q, sdiscount = disc, stotal = amt\<rparr>],
          sale_seq := next_sid (current c)\<rparr>\<rparr>)"
  using assms
  by (simp add: add_sale_write_def insert_sale_def decrease_stock_def commit_def Let_def)

lemma add_sale_write_store_error:
  assumes "flt InsSale \<or> (in_int64 q \<and> in_int64 disc \<and> in_int64 amt) \<and> (flt UpdStock \<or> flt Commit)"
  shows "add_sale_write flt c d m b q disc amt = (Inr StoreErrorReported, rollback c)"
  using assms
  by (auto simp: add_sale_write_def insert_sale_def decrease_stock_def commit_def Let_def
      rollback_def except_store_error_def)

lemma add_sale_write_overflow:
  assumes "\<not> flt InsSale" and "\<not> (in_int64 q \<and> in_int64 disc \<and> in_int64 amt)"
  shows "add_sale_write flt c d m b q disc amt = (Inl OverflowError, c)"
  using assms
  by (simp add: add_sale_write_def insert_sale_def except_store_error_def)


lemma initial_current: "current initial_conn = seed_db"
  by (simp add: initial_conn_def connect_db_def initialize_db_def)

lemma initial_committed: "committed initial_conn = seed_db"
  by (simp add: initial_conn_def connect_db_def initialize_db_def)



text \<open>
  Claim C2. Let the prompts of \<^verbatim>\<open>add_sale\<close> be answered, and let the member id or the book
  id name no row, or the book's stock be less than the quantity. Then the connection, and
  with it every table, is exactly as before, whatever the store does; and when the
  lookups do not fail, the attempt is reported as rejected: for unknown ids with the
  invalid-id message, otherwise with the current stock.
\<close>

theorem add_sale_rejection_changes_nothing:
  assumes date: "read_date inp = Some (d, m # b # inp1)"
    and qty: "read_qty inp1 = Some (q, inp2)"
    and discount: "read_discount inp2 = Some (disc, rest)"
    and cause: "find (\<lambda>r. mid r = m) (member_tbl (current c)) = None
       \<or> find (\<lambda>r. bid r = b) (book_tbl (current c)) = None
       \<or> (\<exists>brow. find (\<lambda>r. bid r = b) (book_tbl (current c)) = Some brow \<and> bstock brow < q)"
  shows "fst (snd (add_sale flt c inp)) = c
      \<and> (\<not> (flt SelMember \<or> flt SelBook \<or> flt SelStock) \<longrightarrow>
          add_sale flt c inp =
            (Inr (case find (\<lambda>r. bid r = b) (book_tbl (current c)) of
                    None \<Rightarrow> InvalidIds
                  | Some brow \<Rightarrow>
                      if find (\<lambda>r. mid r = m) (member_tbl (current c)) = None then InvalidIds
                      else StockShort (bstock brow)),
             c, rest))"
  using date qty discount cause
  by (auto simp: add_sale_def add_sale_body_def valid_ids_def check_member_exists_def
      check_book_exists_def check_book_stock_def get_book_price_def
    split: sum.splits prod.splits option.splits if_splits)

theorem add_sale_rejection_changes_nothing_witness:
  "add_sale no_faults initial_conn [''2024-02-01'', ''M001'', ''B001'', ''51'', ''30'']
     = (Inr (StockShort 50), initial_conn, [])
   \<and> add_sale no_faults initial_conn [''2024-02-01'', ''M009'', ''B001'', ''2'', ''30'']
     = (Inr InvalidIds, initial_conn, [])"
proof -
  have d1: "read_date [''2024-02-01'', ''M001'', ''B001'', ''51'', ''30''] =
        Some (''2024-02-01'', ''M001'' # ''B001'' # [''51'', ''30''])"
    by code_simp
  have d2: "read_date [''2024-02-01'', ''M009'', ''B001'', ''2'', ''30''] =
        Some (''2024-02-01'', ''M009'' # ''B001'' # [''2'', ''30''])"
    by code_simp
  have q1: "read_qty [''51'', ''30''] = Some (51, [''30''])"
    by code_simp
  have q2: "read_qty [''2'', ''30''] = Some (2, [''30''])"
    by code_simp
  have r: "read_discount [''30''] = Some (30, [])"
    by code_simp
  have c1: "find (\<lambda>r. mid r = ''M001'') (member_tbl (current initial_conn)) = None
       \<or> find (\<lambda>r. bid r = ''B001'') (book_tbl (current initial_conn)) = None
       \<or> (\<exists>brow. find (\<lambda>r. bid r = ''B001'') (book_tbl (current initial_conn)) = Some brow
            \<and> bstock brow < 51)"
    by (simp add: initial_current seed_db_def)
  have c2: "find (\<lambda>r. mid r = ''M009'') (member_tbl (current initial_conn)) = None
       \<or> find (\<lambda>r. bid r = ''B001'') (book_tbl (current initial_conn)) = None
       \<or> (\<exists>brow. find (\<lambda>r. bid r = ''B001'') (book_tbl (current initial_conn)) = Some brow
            \<and> bstock brow < 2)"
    by (simp add: initial_current seed_db_def)
  from add_sale_rejection_changes_nothing [OF d1 q1 r c1, of no_faults]
  have "add_sale no_faults initial_conn [''2024-02-01'', ''M001'', ''B001'', ''51'', ''30'']
     = (Inr (StockShort 50), initial_conn, [])"
    by (simp add: no_faults_def initial_current seed_db_def)
  moreover from add_sale_rejection_changes_nothing [OF d2 q2 r c2, of no_faults]
  have "add_sale no_faults initial_conn [''2024-02-01'', ''M009'', ''B001'', ''2'', ''30'']
     = (Inr InvalidIds, initial_conn, [])"
    by (simp add: no_faults_def initial_current seed_db_def)
  ultimately show ?thesis by simp
qed

text \<open>
  Claim C3. Let \<^verbatim>\<open>add_sale\<close> reach its final step (prompts answered, member and book found,
  stock sufficient, lookups without fault), and let the insert, the stock update or the
  commit be bound to fail at the store. A store error is then raised in the step when the
  insert fails at the store, or when quantity, discount and total bind as 64-bit integers
  and a later statement fails. In that case the error is reported, not propagated, and the
  transaction is rolled back: the connection sees the committed store again, so no sale
  row was added and no stock changed. In the remaining case the insert raises
  \<^verbatim>\<open>OverflowError\<close> before the store fails, and nothing is written either. On a connection
  with no transaction open at the start, as between two menu choices, nothing at all has
  changed.
\<close>

theorem add_sale_store_error_rolls_back:
  assumes date: "read_date inp = Some (d, m # b # inp1)"
    and qty: "read_qty inp1 = Some (q, inp2)"
    and discount: "read_discount inp2 = Some (disc, rest)"
    and mem: "find (\<lambda>r. mid r = m) (member_tbl (current c)) = Some mrow"
    and bk: "find (\<lambda>r. bid r = b) (book_tbl (current c)) = Some brow"
    and stock: "q \<le> bstock brow"
    and lookups: "\<not> (flt SelMember \<or> flt SelBook \<or> flt SelStock \<or> flt SelPrice)"
    and fault: "flt InsSale \<or> flt UpdStock \<or> flt Commit"
  shows "\<exists>c'. add_sale flt c inp =
          (if flt InsSale \<or> (in_int64 q \<and> in_int64 disc \<and> in_int64 (bprice brow * q - disc))
           then Inr StoreErrorReported else Inl OverflowError, c', rest)
      \<and> (flt InsSale \<or> (in_int64 q \<and> in_int64 disc \<and> in_int64 (bprice brow * q - disc))
           \<longrightarrow> current c' = committed c)
      \<and> committed c' = committed c
      \<and> (current c = committed c \<longrightarrow> c' = c)"
proof -
  have ids: "valid_ids flt c m b = Inr True"
    using mem bk lookups
    by (simp add: valid_ids_def check_member_exists_def check_book_exists_def)
  have st: "check_book_stock flt c b q = Inr (True, bstock brow)"
    using bk stock lookups by (simp add: check_book_stock_def)
  have pr: "get_book_price flt c b = Inr (bprice brow)"
    using bk lookups by (simp add: get_book_price_def)
  have body: "add_sale flt c inp =
      (case add_sale_write flt c d m b q disc (bprice brow * q - disc) of
         (r, c') \<Rightarrow> (r, c', rest))"
    using date qty discount ids st pr
    by (simp add: add_sale_def add_sale_body_def)
  show ?thesis
  proof (cases "flt InsSale \<or> (in_int64 q \<and> in_int64 disc \<and> in_int64 (bprice brow * q - disc))")
    case True
    with fault have "flt InsSale \<or> (in_int64 q \<and> in_int64 disc
        \<and> in_int64 (bprice brow * q - disc)) \<and> (flt UpdStock \<or> flt Commit)"
      by blast
    then have "add_sale_write flt c d m b q disc (bprice brow * q - disc)
        = (Inr StoreErrorReported, rollback c)"
      by (rule add_sale_write_store_error)
    with body have "add_sale flt c inp = (Inr StoreErrorReported, rollback c, rest)"
      by simp
    with True show ?thesis
      by (auto simp: rollback_def)
  next
    case False
    then have "\<not> flt InsSale"
      and "\<not> (in_int64 q \<and> in_int64 disc \<and> in_int64 (bprice brow * q - disc))"
      by simp_all
    then have "add_sale_write flt c d m b q disc (bprice brow * q - disc) = (Inl OverflowError, c)"
      by (rule add_sale_write_overflow)
    with body have "add_sale flt c inp = (Inl OverflowError, c, rest)"
      by simp
    with False show ?thesis
      by auto
  qed
qed

theorem add_sale_store_error_rolls_back_witness:
  "\<exists>c'. add_sale (\<lambda>s. s = Commit) initial_conn [''2024-02-01'', ''M001'', ''B001'', ''2'', ''0'']
          = (Inr StoreErrorReported, c', [])
      \<and> current c' = seed_db \<and> committed c' = seed_db \<and> c' = initial_conn"
proof -
  have 1: "read_date [''2024-02-01'', ''M001'', ''B001'', ''2'', ''0''] =
        Some (''2024-02-01'', ''M001'' # ''B001'' # [''2'', ''0''])"
    by code_simp
  have 2: "read_qty [''2'', ''0''] = Some (2, [''0''])"
    by code_simp
  have 3: "read_discount [''0''] = Some (0, [])"
    by code_simp
  have 4: "find (\<lambda>r. mid r = ''M001'') (member_tbl (current initial_conn)) =
     Some \<lparr>mid = ''M001'', mname = ''Alice'', mphone = ''0912-345678'',
          memail = Some ''alice@example.com''\<rparr>"
    by (simp add: initial_current seed_db_def)
  have 5: "find (\<lambda>r. bid r = ''B001'') (book_tbl (current initial_conn)) =
     Some \<lparr>bid = ''B001'', btitle = ''Python Programming'', bprice = 600, bstock = 50\<rparr>"
    by (simp add: initial_current seed_db_def)
  have 6: "2 \<le> bstock \<lparr>bid = ''B001'', btitle = ''Python Programming'', bprice = 600, bstock = 50\<rparr>"
    by simp
  have 7: "\<not> ((\<lambda>s. s = Commit) SelMember \<or> (\<lambda>s. s = Commit) SelBook
      \<or> (\<lambda>s. s = Commit) SelStock \<or> (\<lambda>s. s = Commit) SelPrice)"
    by simp
  have 8: "(\<lambda>s. s = Commit) InsSale \<or> (\<lambda>s. s = Commit) UpdStock \<or> (\<lambda>s. s = Commit) Commit"
    by simp
  from add_sale_store_error_rolls_back [OF 1 2 3 4 5 6 7 8] show ?thesis
    by (auto simp: initial_current initial_committed in_int64_def)
qed

subsection \<open>Updating a sale\<close>

lemma find_filter_head: "filter P xs = y # ys \<Longrightarrow> find P xs = Some y"
  by (induction xs) (auto split: if_splits)

lemma first_of_concat:
  "(case concat (map f xs) of [] \<Rightarrow> None | r # _ \<Rightarrow> Some r) = Some r
   \<Longrightarrow> \<exists>x \<in> set xs. \<exists>rest. f x = r # rest"
proof (induction xs)
  case Nil
  then show ?case by simp
next
  case (Cons x xs)
  show ?case
  proof (cases "f x")
    case Nil
    with Cons show ?thesis by simp
  next
    case (Cons y ys)
    with Cons.prems show ?thesis by simp
  qed
qed

lemma select_sale_row:
  assumes "select_sale flt c k = Inr (Some (s, price))"
  shows "s \<in> set (sale_tbl (current c)) \<and> sid s = k
     \<and> (\<exists>brow. find (\<lambda>r. bid r = sale_bid s) (book_tbl (current c)) = Some brow
           \<and> price = bprice brow)"
proof -
  let ?f = "\<lambda>s. map (\<lambda>b. (s, bprice b)) (filter (\<lambda>b. sale_bid s = bid b) (book_tbl (current c)))"
  from assms have
    "(case concat (map ?f (filter (\<lambda>s. sid s = k) (sale_tbl (current c)))) of
        [] \<Rightarrow> None | r # _ \<Rightarrow> Some r) = Some (s, price)"
    by (simp add: select_sale_def split: if_splits)
  from first_of_concat [OF this] obtain x rest
    where x: "x \<in> set (sale_tbl (current c))" "sid x = k" and fx: "?f x = (s, price) # rest"
    by auto
  from fx obtain brow bs
    where fl: "filter (\<lambda>b. sale_bid x = bid b) (book_tbl (current c)) = brow # bs"
      and eq: "(s, price) = (x, bprice brow)"
    by (auto simp: map_eq_Cons_conv)
  from find_filter_head [OF fl]
  have "find (\<lambda>r. bid r = sale_bid x) (book_tbl (current c)) = Some brow"
    by (simp add: eq_commute)
  with x eq show ?thesis by simp
qed

lemma update_sale_updated:
  assumes "update_sale flt c inp = (Inr (SaleUpdated k amt), c', rest)"
  shows "\<exists>sales idx inp1. get_sales_list flt c = Inr sales
     \<and> read_choice (length sales) inp = Some (Some idx, inp1)
     \<and> update_selected flt c (l_sid (sales ! idx)) inp1 = (Inr (SaleUpdated k amt), c', rest)"
  using assms
  by (auto simp: update_sale_def split: sum.splits if_splits option.splits prod.splits)

lemma update_selected_updated:
  assumes "update_selected flt c k0 inp0 = (Inr (SaleUpdated k amt), c', rest)"
  shows "\<exists>s price nd. select_sale flt c k0 = Inr (Some (s, price))
     \<and> read_discount inp0 = Some (nd, rest)
     \<and> k = k0 \<and> amt = price * sqty s - nd \<and> in_int64 nd \<and> in_int64 amt
     \<and> c' = \<lparr>committed = (current c)\<lparr>sale_tbl :=
                 map (\<lambda>r. if sid r = k then r\<lparr>sdiscount := nd, stotal := amt\<rparr> else r)
                   (sale_tbl (current c))\<rparr>,
               current = (current c)\<lparr>sale_tbl :=
                 map (\<lambda>r. if sid r = k then r\<lparr>sdiscount := nd, stotal := amt\<rparr> else r)
                   (sale_tbl (current c))\<rparr>\<rparr>"
  using assms
  by (auto simp: update_selected_def set_discount_def commit_def Let_def except_store_error_def
      split: sum.splits if_splits option.splits prod.splits)

text \<open>
  Claim C4. Whenever \<^verbatim>\<open>update_sale\<close> reports an update of the sale with key \<open>k\<close>: \<open>k\<close> is the
  key of the listed sale the user selected, and the new discount \<open>nd\<close> is the non-negative
  integer the discount prompt read from the input. The sale table afterwards is the table
  before with, in the row of key \<open>k\<close>, the discount replaced by \<open>nd\<close> and the total replaced
  by the new total; date, member, book and quantity of that row and every other row are as
  before. The new total is the unit price the book of the sale has now, times the quantity
  of the sale, minus \<open>nd\<close>. The book table (every stock with it), the member table and the
  key counter are unchanged, and the change is committed.
\<close>

theorem update_sale_changes_only_discount_and_total:
  assumes "update_sale flt c inp = (Inr (SaleUpdated k amt), c', rest)"
  shows "\<exists>sales idx inp1 s brow nd.
       get_sales_list flt c = Inr sales
     \<and> read_choice (length sales) inp = Some (Some idx, inp1)
     \<and> k = l_sid (sales ! idx)
     \<and> read_discount inp1 = Some (nd, rest)
     \<and> select_sale flt c k = Inr (Some (s, bprice brow))
     \<and> s \<in> set (sale_tbl (current c)) \<and> sid s = k
     \<and> find (\<lambda>r. bid r = sale_bid s) (book_tbl (current c)) = Some brow
     \<and> 0 \<le> nd \<and> amt = bprice brow * sqty s - nd
     \<and> in_int64 nd \<and> in_int64 amt
     \<and> sale_tbl (current c') =
         map (\<lambda>r. if sid r = k then r\<lparr>sdiscount := nd, stotal := amt\<rparr> else r)
             (sale_tbl (current c))
     \<and> book_tbl (current c') = book_tbl (current c)
     \<and> member_tbl (current c') = member_tbl (current c)
     \<and> sale_seq (current c') = sale_seq (current c)
     \<and> committed c' = current c'"
proof -
  from update_sale_updated [OF assms] obtain sales idx inp1 where
    lst: "get_sales_list flt c = Inr sales"
    and ch: "read_choice (length sales) inp = Some (Some idx, inp1)"
    and sel: "update_selected flt c (l_sid (sales ! idx)) inp1 = (Inr (SaleUpdated k amt), c', rest)"
    by blast
  from update_selected_updated [OF sel] obtain s price nd where
    row: "select_sale flt c (l_sid (sales ! idx)) = Inr (Some (s, price))"
    and rd: "read_discount inp1 = Some (nd, rest)"
    and k: "k = l_sid (sales ! idx)" and amt: "amt = price * sqty s - nd"
    and range: "in_int64 nd" "in_int64 amt"
    and c': "c' = \<lparr>committed = (current c)\<lparr>sale_tbl :=
                 map (\<lambda>r. if sid r = k then r\<lparr>sdiscount := nd, stotal := amt\<rparr> else r)
                   (sale_tbl (current c))\<rparr>,
               current = (current c)\<lparr>sale_tbl :=
                 map (\<lambda>r. if sid r = k then r\<lparr>sdiscount := nd, stotal := amt\<rparr> else r)
                   (sale_tbl (current c))\<rparr>\<rparr>"
    by blast
  from select_sale_row [OF row] k obtain brow where
    s: "s \<in> set (sale_tbl (current c))" "sid s = k"
    and brow: "find (\<lambda>r. bid r = sale_bid s) (book_tbl (current c)) = Some brow"
      "price = bprice brow"
    by auto
  from lst ch k rd row s brow amt range c' read_discount_nonneg [OF rd] show ?thesis
    by (intro exI [of _ sales] exI [of _ idx] exI [of _ inp1] exI [of _ s] exI [of _ brow]
        exI [of _ nd]) simp
qed

text \<open>
  A discount larger than price times quantity is stored as typed and the total goes
  negative: sale 4 (one copy of a book at 600) with discount 5000 gets the total -4400.
\<close>

theorem update_sale_changes_only_discount_and_total_witness:
  "\<exists>c'. update_sale no_faults initial_conn [''4'', ''5000''] = (Inr (SaleUpdated 4 (- 4400)), c', [])
     \<and> map stotal (sale_tbl (current c')) = [1100, 750, 3400, - 4400]
     \<and> map sdiscount (sale_tbl (current c')) = [100, 50, 200, 5000]
     \<and> map sqty (sale_tbl (current c')) = map sqty (sale_tbl seed_db)
     \<and> book_tbl (current c') = book_tbl seed_db"
proof -
  define c' where "c' = fst (snd (update_sale no_faults initial_conn [''4'', ''5000'']))"
  have "fst (update_sale no_faults initial_conn [''4'', ''5000'']) = Inr (SaleUpdated 4 (- 4400))"
    by code_simp
  moreover have "snd (snd (update_sale no_faults initial_conn [''4'', ''5000''])) = []"
    by code_simp
  ultimately have run:
    "update_sale no_faults initial_conn [''4'', ''5000''] = (Inr (SaleUpdated 4 (- 4400)), c', [])"
    by (simp add: c'_def prod_eq_iff)
  have lst: "get_sales_list no_faults initial_conn =
      Inr [\<lparr>l_sid = 1, l_sdate = ''2024-01-15'', l_mname = ''Alice''\<rparr>,
           \<lparr>l_sid = 2, l_sdate = ''2024-01-16'', l_mname = ''Bob''\<rparr>,
           \<lparr>l_sid = 3, l_sdate = ''2024-01-17'', l_mname = ''Alice''\<rparr>,
           \<lparr>l_sid = 4, l_sdate = ''2024-01-18'', l_mname = ''Cathy''\<rparr>]"
    by code_simp
  have ch: "read_choice 4 [''4'', ''5000''] = Some (Some 3, [''5000''])"
    by code_simp
  have rd: "read_discount [''5000''] = Some (5000, [])"
    by code_simp
  from update_sale_changes_only_discount_and_total [OF run] obtain sales idx inp1 nd where
    o1: "get_sales_list no_faults initial_conn = Inr sales"
    and o2: "read_choice (length sales) [''4'', ''5000''] = Some (Some idx, inp1)"
    and o3: "read_discount inp1 = Some (nd, [])"
    and tbl: "sale_tbl (current c') =
       map (\<lambda>r. if sid r = 4 then r\<lparr>sdiscount := nd, stotal := - 4400\<rparr> else r)
           (sale_tbl (current initial_conn))"
    and books: "book_tbl (current c') = book_tbl (current initial_conn)"
    by blast
  from o1 lst have "length sales = 4"
    by auto
  with o2 ch have "inp1 = [''5000'']"
    by (simp del: read_choice.simps)
  with o3 rd have "nd = 5000"
    by (simp del: read_discount.simps)
  with tbl books run show ?thesis
    by (intro exI [of _ c']) (simp add: initial_current seed_db_def)
qed

text \<open>The end-to-end example of the specification: sale 1, new discount 50, total 1150.\<close>

lemma update_sale_example:
  "fst (update_sale no_faults initial_conn [''1'', ''50'']) = Inr (SaleUpdated 1 1150)
   \<and> map stotal (sale_tbl (current (fst (snd (update_sale no_faults initial_conn [''1'', ''50'']))))) 
       = [1150, 750, 3400, 600]"
  by code_simp

subsection \<open>Deleting a sale\<close>

lemma listed_sale_exists:
  assumes "get_sales_list flt c = Inr sales" and "idx < length sales"
  shows "\<exists>s \<in> set (sale_tbl (current c)). sid s = l_sid (sales ! idx)"
proof -
  from assms(2) have "sales ! idx \<in> set sales" by simp
  with assms(1) have "l_sid (sales ! idx) \<in> sid ` set (sale_tbl (current c))"
    by (auto simp: get_sales_list_def split: if_splits)
  then show ?thesis by (auto simp: image_iff)
qed

lemma filter_other_keys:
  assumes "distinct (map sid (xs @ s # ys))"
  shows "filter (\<lambda>r. sid r \<noteq> sid s) (xs @ s # ys) = xs @ ys"
proof -
  from assms have "sid s \<notin> sid ` set xs" "sid s \<notin> sid ` set ys"
    by simp_all
  then have "\<forall>r \<in> set xs \<union> set ys. sid r \<noteq> sid s"
    by (metis UnE imageI)
  then show ?thesis by (simp add: filter_id_conv)
qed

text \<open>
  Claim C5. Whenever \<^verbatim>\<open>delete_sale\<close> reports the deletion of the sale with key \<open>k\<close>, on a
  sale table whose keys are distinct (\<^verbatim>\<open>sid\<close> is the primary key): the table before is
  \<open>xs @ s # ys\<close> with \<open>s\<close> the row of key \<open>k\<close>, and the table afterwards is \<open>xs @ ys\<close>; the book
  table (every stock with it), the member table and the key counter are unchanged, and the
  deletion is committed.
\<close>

theorem delete_sale_removes_only_selected:
  assumes del: "delete_sale flt c inp = (Inr (SaleDeleted k), c', rest)"
    and keys: "distinct (map sid (sale_tbl (current c)))"
  shows "\<exists>xs s ys. sale_tbl (current c) = xs @ s # ys \<and> sid s = k
     \<and> sale_tbl (current c') = xs @ ys
     \<and> book_tbl (current c') = book_tbl (current c)
     \<and> member_tbl (current c') = member_tbl (current c)
     \<and> sale_seq (current c') = sale_seq (current c)
     \<and> committed c' = current c'"
proof -
  from del obtain sales idx where
    lst: "get_sales_list flt c = Inr sales" and idx: "idx < length sales"
    and k: "k = l_sid (sales ! idx)"
    and c': "c' = \<lparr>committed = (current c)\<lparr>sale_tbl := filter (\<lambda>r. sid r \<noteq> k) (sale_tbl (current c))\<rparr>,
                  current = (current c)\<lparr>sale_tbl := filter (\<lambda>r. sid r \<noteq> k) (sale_tbl (current c))\<rparr>\<rparr>"
    by (auto simp: delete_sale_def delete_selected_def delete_row_def commit_def
        split: sum.splits if_splits option.splits prod.splits dest: read_choice_in_range)
  from listed_sale_exists [OF lst idx] k obtain s where
    "s \<in> set (sale_tbl (current c))" "sid s = k" by auto
  then obtain xs ys where split: "sale_tbl (current c) = xs @ s # ys"
    by (auto dest: split_list)
  with keys \<open>sid s = k\<close> have "filter (\<lambda>r. sid r \<noteq> k) (sale_tbl (current c)) = xs @ ys"
    using filter_other_keys [of xs s ys] by simp
  with split \<open>sid s = k\<close> c' show ?thesis
    by (intro exI [of _ xs] exI [of _ s] exI [of _ ys]) simp
qed

theorem delete_sale_removes_only_selected_witness:
  "\<exists>c'. delete_sale no_faults initial_conn [''2''] = (Inr (SaleDeleted 2), c', [])
     \<and> length (sale_tbl (current c')) = 3
     \<and> list_all (\<lambda>s. s \<in> set (sale_tbl seed_db) \<and> sid s \<noteq> 2) (sale_tbl (current c'))
     \<and> book_tbl (current c') = book_tbl seed_db"
proof -
  define c' where "c' = fst (snd (delete_sale no_faults initial_conn [''2'']))"
  have "fst (delete_sale no_faults initial_conn [''2'']) = Inr (SaleDeleted 2)"
    by code_simp
  moreover have "snd (snd (delete_sale no_faults initial_conn [''2''])) = []"
    by code_simp
  ultimately have run:
    "delete_sale no_faults initial_conn [''2''] = (Inr (SaleDeleted 2), c', [])"
    by (simp add: c'_def prod_eq_iff)
  have keys: "distinct (map sid (sale_tbl (current initial_conn)))"
    by (simp add: initial_current seed_db_def)
  from delete_sale_removes_only_selected [OF run keys] obtain xs s ys where
    split: "sale_tbl seed_db = xs @ s # ys" and s: "sid s = 2"
    and after: "sale_tbl (current c') = xs @ ys"
    and books: "book_tbl (current c') = book_tbl seed_db"
    by (auto simp: initial_current)
  have "length (sale_tbl seed_db) = 4"
    by (simp add: seed_db_def)
  with split after have len: "length (sale_tbl (current c')) = 3"
    by simp
  from keys split have "distinct (map sid (xs @ s # ys))"
    by (simp add: initial_current)
  with s have "\<forall>r \<in> set (xs @ ys). sid r \<noteq> 2"
    by (auto simp: image_iff)
  with split after have other:
    "list_all (\<lambda>s. s \<in> set (sale_tbl seed_db) \<and> sid s \<noteq> 2) (sale_tbl (current c'))"
    by (auto simp: list_all_iff)
  from len other books run show ?thesis
    by (intro exI [of _ c']) simp
qed

subsection \<open>Invariants of the store\<close>

lemma refs_ok_iff:
  "refs_ok d \<longleftrightarrow> (\<forall>s \<in> set (sale_tbl d). sale_bid s \<in> bid ` set (book_tbl d))"
proof -
  have "find (\<lambda>r. bid r = x) bs \<noteq> None \<longleftrightarrow> x \<in> bid ` set bs" for x and bs :: "book list"
    by (auto simp: find_None_iff)
  then show ?thesis by (simp add: refs_ok_def list_all_iff)
qed

lemma stock_ok_iff: "stock_ok d \<longleftrightarrow> (\<forall>r \<in> set (book_tbl d). 0 \<le> bstock r)"
  by (simp add: stock_ok_def list_all_iff)

lemma sales_ok_iff:
  "sales_ok d \<longleftrightarrow> (\<forall>s \<in> set (sale_tbl d). 0 < sqty s \<and> 0 \<le> sdiscount s)"
  by (simp add: sales_ok_def list_all_iff)

lemma find_unique_key:
  assumes "distinct (map bid bs)" and "find (\<lambda>r. bid r = b) bs = Some brow"
    and "r \<in> set bs" and "bid r = b"
  shows "r = brow"
proof -
  from assms(2) have "brow \<in> set bs" "bid brow = b"
    by (auto simp: find_Some_iff)
  moreover from assms(1) have "inj_on bid (set bs)"
    by (simp add: distinct_map)
  ultimately show ?thesis using assms(3,4) by (auto dest: inj_onD)
qed

lemma map_bid_decrease:
  "map bid (map (\<lambda>r. if bid r = b then r\<lparr>bstock := bstock r - q\<rparr> else r) bs) = map bid bs"
  by (induction bs) auto

lemma map_sid_set_discount:
  "map sid (map (\<lambda>r. if sid r = k then r\<lparr>sdiscount := nd, stotal := amt\<rparr> else r) ss) = map sid ss"
  by (induction ss) auto

lemma db_inv_added:
  assumes inv: "db_inv d" and q: "0 < q" and disc: "0 \<le> disc"
    and bk: "find (\<lambda>r. bid r = b) (book_tbl d) = Some brow" and stock: "q \<le> bstock brow"
  shows "db_inv (d\<lparr>
          book_tbl := map (\<lambda>r. if bid r = b then r\<lparr>bstock := bstock r - q\<rparr> else r) (book_tbl d),
          sale_tbl := sale_tbl d @
                 [\<lparr>sid = next_sid d, sdate = dt, sale_mid = m, sale_bid = b,
                   sqty = q, sdiscount = disc, stotal = amt\<rparr>],
          sale_seq := next_sid d\<rparr>)"
proof -
  define bs where "bs = map (\<lambda>r. if bid r = b then r\<lparr>bstock := bstock r - q\<rparr> else r) (book_tbl d)"
  have bids: "map bid bs = map bid (book_tbl d)"
    unfolding bs_def by (rule map_bid_decrease)
  then have img: "bid ` set bs = bid ` set (book_tbl d)"
    by (metis list.set_map)
  from inv have d: "distinct (map mid (member_tbl d))" "distinct (map bid (book_tbl d))"
    "distinct (map sid (sale_tbl d))"
    and st: "\<forall>r \<in> set (book_tbl d). 0 \<le> bstock r"
    and sl: "\<forall>s \<in> set (sale_tbl d). 0 < sqty s \<and> 0 \<le> sdiscount s"
    and rf: "\<forall>s \<in> set (sale_tbl d). sale_bid s \<in> bid ` set (book_tbl d)"
    by (simp_all add: db_inv_def keys_ok_def stock_ok_iff sales_ok_iff refs_ok_iff)
  have fresh: "next_sid d \<notin> sid ` set (sale_tbl d)"
    using next_sid_fresh [of _ d] by fastforce
  from bk have b_in: "b \<in> bid ` set (book_tbl d)"
    by (auto simp: find_Some_iff image_iff)
  have st': "\<forall>r \<in> set bs. 0 \<le> bstock r"
  proof
    fix r assume "r \<in> set bs"
    then obtain r0 where r0: "r0 \<in> set (book_tbl d)"
      and r: "r = (if bid r0 = b then r0\<lparr>bstock := bstock r0 - q\<rparr> else r0)"
      unfolding bs_def by auto
    show "0 \<le> bstock r"
    proof (cases "bid r0 = b")
      case True
      with find_unique_key [OF d(2) bk r0] have "r0 = brow" by simp
      with True r stock show ?thesis by simp
    next
      case False
      with r r0 st show ?thesis by simp
    qed
  qed
  have "db_inv (d\<lparr>book_tbl := bs,
          sale_tbl := sale_tbl d @
                 [\<lparr>sid = next_sid d, sdate = dt, sale_mid = m, sale_bid = b,
                   sqty = q, sdiscount = disc, stotal = amt\<rparr>],
          sale_seq := next_sid d\<rparr>)"
    using d fresh st' sl rf q disc b_in
    by (simp add: db_inv_def keys_ok_def stock_ok_iff sales_ok_iff refs_ok_iff bids img)
  then show ?thesis by (simp only: bs_def)
qed

lemma db_inv_discount:
  assumes inv: "db_inv d" and nd: "0 \<le> nd"
  shows "db_inv (d\<lparr>sale_tbl :=
           map (\<lambda>r. if sid r = k then r\<lparr>sdiscount := nd, stotal := amt\<rparr> else r) (sale_tbl d)\<rparr>)"
proof -
  define ss where
    "ss = map (\<lambda>r. if sid r = k then r\<lparr>sdiscount := nd, stotal := amt\<rparr> else r) (sale_tbl d)"
  have sids: "map sid ss = map sid (sale_tbl d)"
    unfolding ss_def by (rule map_sid_set_discount)
  have rows: "\<forall>s \<in> set ss. \<exists>s0 \<in> set (sale_tbl d).
      sale_bid s = sale_bid s0 \<and> sqty s = sqty s0 \<and> (sdiscount s = sdiscount s0 \<or> sdiscount s = nd)"
    unfolding ss_def by auto
  from inv have sl: "\<forall>s \<in> set (sale_tbl d). 0 < sqty s \<and> 0 \<le> sdiscount s"
    and rf: "\<forall>s \<in> set (sale_tbl d). sale_bid s \<in> bid ` set (book_tbl d)"
    by (simp_all add: db_inv_def sales_ok_iff refs_ok_iff)
  have sl': "\<forall>s \<in> set ss. 0 < sqty s \<and> 0 \<le> sdiscount s"
    using rows sl nd by (metis)
  have rf': "\<forall>s \<in> set ss. sale_bid s \<in> bid ` set (book_tbl d)"
    using rows rf by (metis)
  have "db_inv (d\<lparr>sale_tbl := ss\<rparr>)"
    using inv sl' rf'
    by (simp add: db_inv_def keys_ok_def stock_ok_iff sales_ok_iff refs_ok_iff sids)
  then show ?thesis by (simp only: ss_def)
qed

lemma db_inv_deleted:
  assumes inv: "db_inv d"
  shows "db_inv (d\<lparr>sale_tbl := filter (\<lambda>r. sid r \<noteq> k) (sale_tbl d)\<rparr>)"
  using assms
  by (simp add: db_inv_def keys_ok_def stock_ok_iff sales_ok_iff refs_ok_iff distinct_map_filter)

lemma db_inv_seed: "db_inv seed_db"
  by (simp add: db_inv_def keys_ok_def stock_ok_def sales_ok_def refs_ok_def seed_db_def)

lemma except_store_error_conn:
  "except_store_error e c = (r, c') \<Longrightarrow> c' = c \<or> c' = rollback c"
  by (auto simp: except_store_error_def split: if_splits)

lemma add_sale_write_inv:
  assumes inv: "db_inv (committed c)" "db_inv (current c)"
    and q: "0 < q" and disc: "0 \<le> disc"
    and bk: "find (\<lambda>r. bid r = b) (book_tbl (current c)) = Some brow"
    and stock: "q \<le> bstock brow"
    and run: "add_sale_write flt c d m b q disc amt = (out, c')"
  shows "db_inv (committed c') \<and> db_inv (current c')"
proof (cases "flt InsSale \<or> (in_int64 q \<and> in_int64 disc \<and> in_int64 amt) \<and> (flt UpdStock \<or> flt Commit)")
  case True
  then have "add_sale_write flt c d m b q disc amt = (Inr StoreErrorReported, rollback c)"
    by (rule add_sale_write_store_error)
  with run have "c' = rollback c" by simp
  with inv show ?thesis by (simp add: rollback_def)
next
  case no_store_error: False
  show ?thesis
  proof (cases "in_int64 q \<and> in_int64 disc \<and> in_int64 amt")
    case True
    with no_store_error have wr: "\<not> flt InsSale" "\<not> flt UpdStock" "\<not> flt Commit"
      and range: "in_int64 q" "in_int64 disc" "in_int64 amt"
      by simp_all
    from db_inv_added [OF inv(2) q disc bk stock] run show ?thesis
      by (auto simp: add_sale_write_ok [OF wr range])
  next
    case False
    moreover from no_store_error have "\<not> flt InsSale" by simp
    ultimately have "add_sale_write flt c d m b q disc amt = (Inl OverflowError, c)"
      by (simp add: add_sale_write_overflow)
    with run inv show ?thesis by simp
  qed
qed

lemma add_sale_body_inv:
  assumes inv: "db_inv (committed c)" "db_inv (current c)"
    and q: "0 < q" and disc: "0 \<le> disc"
    and run: "add_sale_body flt c d m b ids_ok q disc = (r, c')"
  shows "db_inv (committed c') \<and> db_inv (current c')"
proof (cases "c' = c")
  case True
  with inv show ?thesis by simp
next
  case False
  with run obtain brow price out where
    "find (\<lambda>r. bid r = b) (book_tbl (current c)) = Some brow" "q \<le> bstock brow"
    "add_sale_write flt c d m b q disc price = (out, c')"
    by (auto simp: add_sale_body_def check_book_stock_def get_book_price_def
        split: if_splits sum.splits prod.splits option.splits)
  with add_sale_write_inv [OF inv q disc] show ?thesis by blast
qed

lemma add_sale_inv:
  assumes inv: "db_inv (committed c)" "db_inv (current c)"
    and run: "add_sale flt c inp = (r, c', rest)"
  shows "db_inv (committed c') \<and> db_inv (current c')"
proof (cases "c' = c")
  case True
  with inv show ?thesis by simp
next
  case False
  with run obtain d m b ids_ok q disc inp1 inp2 where
    "read_qty inp1 = Some (q, inp2)" "read_discount inp2 = Some (disc, rest)"
    "add_sale_body flt c d m b ids_ok q disc = (r, c')"
    by (auto simp: add_sale_def split: option.splits prod.splits list.splits sum.splits)
  with add_sale_body_inv [OF inv] read_qty_positive read_discount_nonneg show ?thesis
    by blast
qed

lemma rollback_inv:
  "db_inv (committed c) \<Longrightarrow> db_inv (committed (rollback c)) \<and> db_inv (current (rollback c))"
  by (simp add: rollback_def)

lemma commit_inv:
  "db_inv (current c) \<Longrightarrow> commit flt c = Inr c1 \<Longrightarrow> db_inv (committed c1) \<and> db_inv (current c1)"
  by (auto simp: commit_def split: if_splits)

lemma set_discount_inv:
  assumes "db_inv (committed c)" "db_inv (current c)" "0 \<le> nd"
    and "set_discount flt c nd amt k = Inr c1"
  shows "db_inv (committed c1) \<and> db_inv (current c1)"
  using assms db_inv_discount [OF assms(2,3), of k amt]
  by (auto simp: set_discount_def split: if_splits)

lemma delete_row_inv:
  assumes "db_inv (committed c)" "db_inv (current c)"
    and "delete_row flt c k = Inr c1"
  shows "db_inv (committed c1) \<and> db_inv (current c1)"
  using assms db_inv_deleted [OF assms(2), of k]
  by (auto simp: delete_row_def split: if_splits)

lemma update_selected_inv:
  assumes inv: "db_inv (committed c)" "db_inv (current c)"
    and run: "update_selected flt c k inp = (r, c', rest)"
  shows "db_inv (committed c') \<and> db_inv (current c')"
proof (cases "select_sale flt c k")
  case (Inl e)
  with run have "c' = c \<or> c' = rollback c"
    by (auto simp: update_selected_def split: prod.splits dest: except_store_error_conn)
  with inv rollback_inv [OF inv(1)] show ?thesis by auto
next
  case row: (Inr row)
  show ?thesis
  proof (cases "read_discount inp")
    case None
    with run row have "c' = c" by (simp add: update_selected_def)
    with inv show ?thesis by simp
  next
    case (Some p)
    then obtain nd rest0 where rd: "read_discount inp = Some (nd, rest0)"
      by (cases p) simp
    show ?thesis
    proof (cases row)
      case None
      with run row rd have "c' = c" by (simp add: update_selected_def)
      with inv show ?thesis by simp
    next
      case (Some sp)
      then obtain s price where sp: "row = Some (s, price)"
        by (cases sp) simp
      show ?thesis
      proof (cases "set_discount flt c nd (price * sqty s - nd) k")
        case (Inl e)
        with run row rd sp have "c' = c \<or> c' = rollback c"
          by (auto simp: update_selected_def split: prod.splits dest: except_store_error_conn)
        with inv rollback_inv [OF inv(1)] show ?thesis by auto
      next
        case c1: (Inr c1)
        from set_discount_inv [OF inv read_discount_nonneg [OF rd] c1]
        have inv1: "db_inv (committed c1)" "db_inv (current c1)" by simp_all
        show ?thesis
        proof (cases "commit flt c1")
          case (Inl e)
          with run row rd sp c1 have "c' = c1 \<or> c' = rollback c1"
            by (auto simp: update_selected_def split: prod.splits dest: except_store_error_conn)
          with inv1 rollback_inv [OF inv1(1)] show ?thesis by auto
        next
          case (Inr c2)
          with run row rd sp c1 have "c' = c2" by (simp add: update_selected_def)
          with commit_inv [OF inv1(2) Inr] show ?thesis by simp
        qed
      qed
    qed
  qed
qed

lemma update_sale_inv:
  assumes inv: "db_inv (committed c)" "db_inv (current c)"
    and run: "update_sale flt c inp = (r, c', rest)"
  shows "db_inv (committed c') \<and> db_inv (current c')"
proof (cases "c' = c")
  case True
  with inv show ?thesis by simp
next
  case False
  with run obtain k inp0 where "update_selected flt c k inp0 = (r, c', rest)"
    by (auto simp: update_sale_def split: sum.splits if_splits option.splits)
  with update_selected_inv [OF inv] show ?thesis by blast
qed

lemma delete_selected_inv:
  assumes inv: "db_inv (committed c)" "db_inv (current c)"
    and run: "delete_selected flt c k = (r, c')"
  shows "db_inv (committed c') \<and> db_inv (current c')"
proof (cases "delete_row flt c k")
  case (Inl e)
  with run have "c' = c" by (simp add: delete_selected_def)
  with inv show ?thesis by simp
next
  case c1: (Inr c1)
  from delete_row_inv [OF inv c1]
  have inv1: "db_inv (committed c1)" "db_inv (current c1)" by simp_all
  show ?thesis
  proof (cases "commit flt c1")
    case (Inl e)
    with run c1 have "c' = c1" by (simp add: delete_selected_def)
    with inv1 show ?thesis by simp
  next
    case (Inr c2)
    with run c1 have "c' = c2" by (simp add: delete_selected_def)
    with commit_inv [OF inv1(2) Inr] show ?thesis by simp
  qed
qed

lemma delete_sale_inv:
  assumes inv: "db_inv (committed c)" "db_inv (current c)"
    and run: "delete_sale flt c inp = (r, c', rest)"
  shows "db_inv (committed c') \<and> db_inv (current c')"
proof (cases "c' = c")
  case True
  with inv show ?thesis by simp
next
  case False
  with run obtain k where "delete_selected flt c k = (r, c')"
    by (auto simp: delete_sale_def split: sum.splits if_splits option.splits prod.splits)
  with delete_selected_inv [OF inv] show ?thesis by blast
qed

lemma reachable_inv: "reachable c \<Longrightarrow> db_inv (committed c) \<and> db_inv (current c)"
proof (induction rule: reachable.induct)
  case start
  show ?case by (simp add: initial_current initial_committed db_inv_seed)
next
  case (after_add c flt inp r c' rest)
  then show ?case using add_sale_inv by blast
next
  case (after_update c flt inp r c' rest)
  then show ?case using update_sale_inv by blast
next
  case (after_delete c flt inp r c' rest)
  then show ?case using delete_sale_inv by blast
next
  case (after_exit c flt c')
  then show ?case by (auto simp: commit_def split: if_splits)
next
  case (after_crash c)
  then show ?case by (simp add: connect_db_def initialize_db_def)
qed

subsection \<open>Reachable connections keep the invariants\<close>

text \<open>
  Claim C8. In every connection reachable from the seeded store, every book's stock is
  non-negative, in the store the connection sees and in the committed store. (Creation
  decrements only after the stock check; update and delete leave the book table alone.)
\<close>

theorem reachable_stock_nonnegative:
  assumes "reachable c"
  shows "(\<forall>r \<in> set (book_tbl (current c)). 0 \<le> bstock r)
       \<and> (\<forall>r \<in> set (book_tbl (committed c)). 0 \<le> bstock r)"
  using reachable_inv [OF assms] by (simp add: db_inv_def stock_ok_iff)

theorem reachable_stock_nonnegative_witness:
  "reachable (fst (snd (add_sale no_faults initial_conn
      [''2024-02-01'', ''M001'', ''B001'', ''50'', ''0''])))
   \<and> list_all (\<lambda>r. 0 \<le> bstock r) (book_tbl (current (fst (snd (add_sale no_faults initial_conn
      [''2024-02-01'', ''M001'', ''B001'', ''50'', ''0''])))))
   \<and> map bstock (book_tbl (current (fst (snd (add_sale no_faults initial_conn
      [''2024-02-01'', ''M001'', ''B001'', ''50'', ''0''])))))  = [0, 30, 20]"
proof -
  let ?run = "add_sale no_faults initial_conn [''2024-02-01'', ''M001'', ''B001'', ''50'', ''0'']"
  have "?run = (fst ?run, fst (snd ?run), snd (snd ?run))"
    by simp
  with reachable.start have r: "reachable (fst (snd ?run))"
    by (rule reachable.after_add)
  have v: "map bstock (book_tbl (current (fst (snd ?run)))) = [0, 30, 20]"
    by code_simp
  from reachable_stock_nonnegative [OF r] v r show ?thesis
    by (simp add: list_all_iff)
qed

text \<open>
  Claim C9. In every connection reachable from the seeded store, every sale row has a
  positive quantity and a non-negative discount, in the store the connection sees and in
  the committed store.
\<close>

theorem reachable_sales_wellformed:
  assumes "reachable c"
  shows "(\<forall>s \<in> set (sale_tbl (current c)). 0 < sqty s \<and> 0 \<le> sdiscount s)
       \<and> (\<forall>s \<in> set (sale_tbl (committed c)). 0 < sqty s \<and> 0 \<le> sdiscount s)"
  using reachable_inv [OF assms] by (simp add: db_inv_def sales_ok_iff)

theorem reachable_sales_wellformed_witness:
  "reachable (fst (snd (update_sale no_faults initial_conn [''4'', ''-5'', ''0''])))
   \<and> list_all (\<lambda>s. 0 < sqty s \<and> 0 \<le> sdiscount s)
        (sale_tbl (current (fst (snd (update_sale no_faults initial_conn [''4'', ''-5'', ''0''])))))
   \<and> map sdiscount
        (sale_tbl (current (fst (snd (update_sale no_faults initial_conn [''4'', ''-5'', ''0'']))))) 
       = [100, 50, 200, 0]"
proof -
  let ?run = "update_sale no_faults initial_conn [''4'', ''-5'', ''0'']"
  have "?run = (fst ?run, fst (snd ?run), snd (snd ?run))"
    by simp
  with reachable.start have r: "reachable (fst (snd ?run))"
    by (rule reachable.after_update)
  have v: "map sdiscount (sale_tbl (current (fst (snd ?run)))) = [100, 50, 200, 0]"
    by code_simp
  from reachable_sales_wellformed [OF r] v r show ?thesis
    by (simp add: list_all_iff)
qed

subsection \<open>The lookup of \<^verbatim>\<open>update_sale\<close> finds its row\<close>

lemma concat_nonempty:
  "xs \<noteq> [] \<Longrightarrow> \<forall>x \<in> set xs. f x \<noteq> [] \<Longrightarrow> concat (map f xs) \<noteq> []"
  by (cases xs) auto

lemma select_sale_found:
  assumes refs: "refs_ok (current c)" and s: "s \<in> set (sale_tbl (current c))" "sid s = k"
    and ok: "\<not> flt SelSale"
  shows "\<exists>row. select_sale flt c k = Inr (Some row)"
proof -
  let ?f = "\<lambda>s. map (\<lambda>b. (s, bprice b)) (filter (\<lambda>b. sale_bid s = bid b) (book_tbl (current c)))"
  let ?xs = "filter (\<lambda>s. sid s = k) (sale_tbl (current c))"
  from s have ne: "?xs \<noteq> []"
    by (auto simp: filter_empty_conv)
  have "\<forall>x \<in> set ?xs. ?f x \<noteq> []"
  proof
    fix x assume "x \<in> set ?xs"
    then have "x \<in> set (sale_tbl (current c))" by simp
    with refs have "sale_bid x \<in> bid ` set (book_tbl (current c))"
      by (simp add: refs_ok_iff)
    then show "?f x \<noteq> []"
      by (auto simp: filter_empty_conv)
  qed
  with ne have "concat (map ?f ?xs) \<noteq> []" by (rule concat_nonempty)
  then obtain r rs where "concat (map ?f ?xs) = r # rs"
    by (cases "concat (map ?f ?xs)") auto
  with ok show ?thesis by (simp add: select_sale_def)
qed

lemma except_store_error_result:
  "e \<noteq> TypeError \<Longrightarrow> fst (except_store_error e c) \<noteq> Inl TypeError"
  by (simp add: except_store_error_def)

lemma select_sale_error: "select_sale flt c k = Inl e \<Longrightarrow> e = StoreError"
  by (simp add: select_sale_def split: if_splits)

lemma set_discount_error: "set_discount flt c nd amt k = Inl e \<Longrightarrow> e \<noteq> TypeError"
  by (auto simp: set_discount_def split: if_splits)

lemma commit_error: "commit flt c = Inl e \<Longrightarrow> e = StoreError"
  by (simp add: commit_def split: if_splits)

lemma update_selected_TypeError:
  assumes "fst (update_selected flt c k inp) = Inl TypeError"
  shows "select_sale flt c k = Inr None"
proof (cases "select_sale flt c k")
  case (Inl e)
  with select_sale_error [OF Inl] have "fst (except_store_error e c) \<noteq> Inl TypeError"
    by (simp add: except_store_error_result)
  with assms Inl show ?thesis
    by (simp add: update_selected_def split: prod.splits)
next
  case row: (Inr row)
  show ?thesis
  proof (cases row)
    case None
    with row show ?thesis by simp
  next
    case (Some sp)
    obtain s price where sp: "sp = (s, price)" by (cases sp)
    show ?thesis
    proof (cases "read_discount inp")
      case None
      with assms row show ?thesis by (simp add: update_selected_def)
    next
      case rd: (Some p)
      obtain nd rest where p: "p = (nd, rest)" by (cases p)
      show ?thesis
      proof (cases "set_discount flt c nd (price * sqty s - nd) k")
        case (Inl e)
        from set_discount_error [OF Inl]
        have "fst (except_store_error e c) \<noteq> Inl TypeError"
          by (rule except_store_error_result)
        with assms row Some sp rd p Inl show ?thesis
          by (simp add: update_selected_def split: prod.splits)
      next
        case c1: (Inr c1)
        show ?thesis
        proof (cases "commit flt c1")
          case (Inl e)
          with commit_error [OF Inl] have "fst (except_store_error e c1) \<noteq> Inl TypeError"
            by (simp add: except_store_error_result)
          with assms row Some sp rd p c1 Inl show ?thesis
            by (simp add: update_selected_def split: prod.splits)
        next
          case (Inr c2)
          with assms row Some sp rd p c1 show ?thesis by (simp add: update_selected_def)
        qed
      qed
    qed
  qed
qed

lemma update_sale_TypeError:
  assumes "fst (update_sale flt c inp) = Inl TypeError"
  shows "\<exists>sales idx. get_sales_list flt c = Inr sales \<and> idx < length sales
           \<and> select_sale flt c (l_sid (sales ! idx)) = Inr None"
proof (cases "get_sales_list flt c")
  case (Inl e)
  then have "e = StoreError" by (simp add: get_sales_list_def split: if_splits)
  with assms Inl show ?thesis by (simp add: update_sale_def)
next
  case lst: (Inr sales)
  show ?thesis
  proof (cases "sales = []")
    case True
    with assms lst show ?thesis by (simp add: update_sale_def)
  next
    case ne: False
    show ?thesis
    proof (cases "read_choice (length sales) inp")
      case None
      with assms lst ne show ?thesis by (simp add: update_sale_def)
    next
      case (Some p)
      obtain ch rest where p: "p = (ch, rest)" by (cases p)
      show ?thesis
      proof (cases ch)
        case None
        with assms lst ne Some p show ?thesis by (simp add: update_sale_def)
      next
        case idx: (Some idx)
        with Some p have ch: "read_choice (length sales) inp = Some (Some idx, rest)" by simp
        with assms lst ne
        have "fst (update_selected flt c (l_sid (sales ! idx)) rest) = Inl TypeError"
          by (simp add: update_sale_def)
        from update_selected_TypeError [OF this] lst read_choice_in_range [OF ch]
        show ?thesis by blast
      qed
    qed
  qed
qed

text \<open>
  Claim C10. If every sale's book reference names a row of the book table, then for every
  valid index into the listed sales the lookup of \<^verbatim>\<open>update_sale\<close> (the sale joined with its
  book) returns a row, unless the lookup itself raises a store error. Every reachable
  connection satisfies the condition, so \<^verbatim>\<open>update_sale\<close> never subscripts a missing row
  there: no \<^verbatim>\<open>TypeError\<close> leaves it.
\<close>

theorem update_lookup_finds_row:
  "(refs_ok (current c) \<longrightarrow> \<not> flt SelSale \<longrightarrow> get_sales_list flt c = Inr sales
      \<longrightarrow> idx < length sales
      \<longrightarrow> (\<exists>row. select_sale flt c (l_sid (sales ! idx)) = Inr (Some row)))
   \<and> (reachable c \<longrightarrow> refs_ok (current c))
   \<and> (reachable c \<longrightarrow> fst (update_sale flt c inp) \<noteq> Inl TypeError)"
proof (intro conjI impI)
  assume refs: "refs_ok (current c)" and ok: "\<not> flt SelSale"
    and lst: "get_sales_list flt c = Inr sales" and idx: "idx < length sales"
  from listed_sale_exists [OF lst idx] obtain s where
    s: "s \<in> set (sale_tbl (current c))" "sid s = l_sid (sales ! idx)" by blast
  from refs s ok
  show "\<exists>row. select_sale flt c (l_sid (sales ! idx)) = Inr (Some row)"
    by (rule select_sale_found)
next
  assume "reachable c"
  from reachable_inv [OF this] show "refs_ok (current c)"
    by (simp add: db_inv_def)
next
  assume r: "reachable c"
  from reachable_inv [OF r] have refs: "refs_ok (current c)"
    by (simp add: db_inv_def)
  show "fst (update_sale flt c inp) \<noteq> Inl TypeError"
  proof
    assume "fst (update_sale flt c inp) = Inl TypeError"
    from update_sale_TypeError [OF this] obtain sales idx where
      lst: "get_sales_list flt c = Inr sales" and idx: "idx < length sales"
      and none: "select_sale flt c (l_sid (sales ! idx)) = Inr None" by blast
    from none have ok: "\<not> flt SelSale"
      by (simp add: select_sale_def split: if_splits)
    from listed_sale_exists [OF lst idx] obtain s where
      s: "s \<in> set (sale_tbl (current c))" "sid s = l_sid (sales ! idx)" by blast
    from refs s ok have "\<exists>row. select_sale flt c (l_sid (sales ! idx)) = Inr (Some row)"
      by (rule select_sale_found)
    with none show False by simp
  qed
qed

theorem update_lookup_finds_row_witness:
  "(\<exists>row. select_sale no_faults initial_conn 3 = Inr (Some row))
   \<and> refs_ok (current initial_conn) \<and> reachable initial_conn
   \<and> fst (update_sale no_faults initial_conn [''3'', ''10'']) \<noteq> Inl TypeError"
proof -
  have lst: "get_sales_list no_faults initial_conn =
      Inr [\<lparr>l_sid = 1, l_sdate = ''2024-01-15'', l_mname = ''Alice''\<rparr>,
           \<lparr>l_sid = 2, l_sdate = ''2024-01-16'', l_mname = ''Bob''\<rparr>,
           \<lparr>l_sid = 3, l_sdate = ''2024-01-17'', l_mname = ''Alice''\<rparr>,
           \<lparr>l_sid = 4, l_sdate = ''2024-01-18'', l_mname = ''Cathy''\<rparr>]"
    by code_simp
  have refs: "refs_ok (current initial_conn)"
    by (simp add: initial_current refs_ok_def seed_db_def)
  have ok: "\<not> no_faults SelSale"
    by (simp add: no_faults_def)
  from update_lookup_finds_row
    [of initial_conn no_faults
      "[\<lparr>l_sid = 1, l_sdate = ''2024-01-15'', l_mname = ''Alice''\<rparr>,
        \<lparr>l_sid = 2, l_sdate = ''2024-01-16'', l_mname = ''Bob''\<rparr>,
        \<lparr>l_sid = 3, l_sdate = ''2024-01-17'', l_mname = ''Alice''\<rparr>,
        \<lparr>l_sid = 4, l_sdate = ''2024-01-18'', l_mname = ''Cathy''\<rparr>]" 2 "[''3'', ''10'']"]
    refs ok lst reachable.start
  show ?thesis by simp
qed

subsection \<open>The date format\<close>

lemma match_digits_iff:
  "match_digits n s = Some r \<longleftrightarrow> (\<exists>ds. s = ds @ r \<and> length ds = n \<and> list_all is_digit ds)"
proof (induction n s rule: match_digits.induct)
  case (1 s)
  show ?case by auto
next
  case (2 n)
  show ?case by auto
next
  case (3 n c s)
  show ?case
  proof
    assume "match_digits (Suc n) (c # s) = Some r"
    then have c: "is_digit c" and "match_digits n s = Some r"
      by (simp_all split: if_splits)
    with 3 obtain ds where "s = ds @ r" "length ds = n" "list_all is_digit ds"
      by auto
    with c have "c # s = (c # ds) @ r \<and> length (c # ds) = Suc n \<and> list_all is_digit (c # ds)"
      by simp
    then show "\<exists>ds. c # s = ds @ r \<and> length ds = Suc n \<and> list_all is_digit ds"
      by blast
  next
    assume "\<exists>ds. c # s = ds @ r \<and> length ds = Suc n \<and> list_all is_digit ds"
    then obtain ds where ds: "c # s = ds @ r" "length ds = Suc n" "list_all is_digit ds"
      by blast
    then obtain d ds' where "ds = d # ds'"
      by (cases ds) auto
    with ds have "is_digit c" "s = ds' @ r" "length ds' = n" "list_all is_digit ds'"
      by auto
    with 3 show "match_digits (Suc n) (c # s) = Some r"
      by auto
  qed
qed

lemma match_char_iff: "match_char c s = Some r \<longleftrightarrow> s = c # r"
  by (cases s) auto

lemma validate_date_parts:
  "validate_date s \<longleftrightarrow>
     (\<exists>y m d rest. s = y @ CHR ''-'' # m @ CHR ''-'' # d @ rest
        \<and> length y = 4 \<and> length m = 2 \<and> length d = 2
        \<and> list_all is_digit y \<and> list_all is_digit m \<and> list_all is_digit d
        \<and> (rest = [] \<or> rest = [CHR 0x0A]))"
proof
  assume "validate_date s"
  then obtain r1 r2 r3 r4 rest where
    "match_digits 4 s = Some r1" "match_char CHR ''-'' r1 = Some r2"
    "match_digits 2 r2 = Some r3" "match_char CHR ''-'' r3 = Some r4"
    "match_digits 2 r4 = Some rest" "match_dollar rest"
    by (auto simp: validate_date_def bind_eq_Some_conv split: option.splits)
  then obtain y m d where
    "s = y @ r1" "length y = 4" "list_all is_digit y" "r1 = CHR ''-'' # r2"
    "r2 = m @ r3" "length m = 2" "list_all is_digit m" "r3 = CHR ''-'' # r4"
    "r4 = d @ rest" "length d = 2" "list_all is_digit d"
    "rest = [] \<or> rest = [CHR 0x0A]"
    unfolding match_digits_iff match_char_iff match_dollar_def by blast
  then show "\<exists>y m d rest. s = y @ CHR ''-'' # m @ CHR ''-'' # d @ rest
        \<and> length y = 4 \<and> length m = 2 \<and> length d = 2
        \<and> list_all is_digit y \<and> list_all is_digit m \<and> list_all is_digit d
        \<and> (rest = [] \<or> rest = [CHR 0x0A])"
    by blast
next
  assume "\<exists>y m d rest. s = y @ CHR ''-'' # m @ CHR ''-'' # d @ rest
        \<and> length y = 4 \<and> length m = 2 \<and> length d = 2
        \<and> list_all is_digit y \<and> list_all is_digit m \<and> list_all is_digit d
        \<and> (rest = [] \<or> rest = [CHR 0x0A])"
  then obtain y m d rest where s: "s = y @ CHR ''-'' # m @ CHR ''-'' # d @ rest"
    and l: "length y = 4" "length m = 2" "length d = 2"
    and g: "list_all is_digit y" "list_all is_digit m" "list_all is_digit d"
    and e: "rest = [] \<or> rest = [CHR 0x0A]"
    by blast
  have 1: "match_digits 4 s = Some (CHR ''-'' # m @ CHR ''-'' # d @ rest)"
    unfolding match_digits_iff using s l g by blast
  have 2: "match_digits 2 (m @ CHR ''-'' # d @ rest) = Some (CHR ''-'' # d @ rest)"
    unfolding match_digits_iff using l g by blast
  have 3: "match_digits 2 (d @ rest) = Some rest"
    unfolding match_digits_iff using l g by blast
  from e show "validate_date s"
    by (simp add: validate_date_def 1 2 3 match_dollar_def)
qed

lemma date_shape_parts:
  "date_shape t \<longleftrightarrow>
     (\<exists>y m d. t = y @ CHR ''-'' # m @ CHR ''-'' # d
        \<and> length y = 4 \<and> length m = 2 \<and> length d = 2
        \<and> list_all is_digit y \<and> list_all is_digit m \<and> list_all is_digit d)"
proof
  assume sh: "date_shape t"
  then have len: "length t = 10" by (simp add: date_shape_def)
  have "t = take 4 t @ t ! 4 # drop 5 t"
    using len id_take_nth_drop [of 4 t] by simp
  moreover have "drop 5 t = take 2 (drop 5 t) @ drop 5 t ! 2 # drop 3 (drop 5 t)"
    using len id_take_nth_drop [of 2 "drop 5 t"] by simp
  ultimately have "t = take 4 t @ t ! 4 # take 2 (drop 5 t) @ t ! 7 # drop 8 t"
    using len by simp
  with sh len have "t = take 4 t @ CHR ''-'' # take 2 (drop 5 t) @ CHR ''-'' # drop 8 t
      \<and> length (take 4 t) = 4 \<and> length (take 2 (drop 5 t)) = 2 \<and> length (drop 8 t) = 2
      \<and> list_all is_digit (take 4 t) \<and> list_all is_digit (take 2 (drop 5 t))
      \<and> list_all is_digit (drop 8 t)"
    by (simp add: date_shape_def)
  then show "\<exists>y m d. t = y @ CHR ''-'' # m @ CHR ''-'' # d
        \<and> length y = 4 \<and> length m = 2 \<and> length d = 2
        \<and> list_all is_digit y \<and> list_all is_digit m \<and> list_all is_digit d"
    by blast
next
  assume "\<exists>y m d. t = y @ CHR ''-'' # m @ CHR ''-'' # d
        \<and> length y = 4 \<and> length m = 2 \<and> length d = 2
        \<and> list_all is_digit y \<and> list_all is_digit m \<and> list_all is_digit d"
  then show "date_shape t"
    by (auto simp: date_shape_def nth_append)
qed

lemma validate_date_iff:
  "validate_date s \<longleftrightarrow> date_shape s \<or> (\<exists>t. s = t @ [CHR 0x0A] \<and> date_shape t)"
proof
  assume "validate_date s"
  then obtain y m d rest where s: "s = y @ CHR ''-'' # m @ CHR ''-'' # d @ rest"
    and p: "length y = 4" "length m = 2" "length d = 2"
      "list_all is_digit y" "list_all is_digit m" "list_all is_digit d"
    and e: "rest = [] \<or> rest = [CHR 0x0A]"
    unfolding validate_date_parts by blast
  from p have sh: "date_shape (y @ CHR ''-'' # m @ CHR ''-'' # d)"
    unfolding date_shape_parts by blast
  from e show "date_shape s \<or> (\<exists>t. s = t @ [CHR 0x0A] \<and> date_shape t)"
  proof
    assume "rest = []"
    with s sh show ?thesis by simp
  next
    assume "rest = [CHR 0x0A]"
    with s have "s = (y @ CHR ''-'' # m @ CHR ''-'' # d) @ [CHR 0x0A]" by simp
    with sh show ?thesis by blast
  qed
next
  assume "date_shape s \<or> (\<exists>t. s = t @ [CHR 0x0A] \<and> date_shape t)"
  then show "validate_date s"
  proof
    assume "date_shape s"
    then obtain y m d where "s = y @ CHR ''-'' # m @ CHR ''-'' # d @ []"
      "length y = 4" "length m = 2" "length d = 2"
      "list_all is_digit y" "list_all is_digit m" "list_all is_digit d"
      unfolding date_shape_parts by auto
    then show ?thesis unfolding validate_date_parts by blast
  next
    assume "\<exists>t. s = t @ [CHR 0x0A] \<and> date_shape t"
    then obtain y m d where "s = y @ CHR ''-'' # m @ CHR ''-'' # d @ [CHR 0x0A]"
      "length y = 4" "length m = 2" "length d = 2"
      "list_all is_digit y" "list_all is_digit m" "list_all is_digit d"
      unfolding date_shape_parts by auto
    then show ?thesis unfolding validate_date_parts by blast
  qed
qed

text \<open>The three examples of the specification.\<close>

lemma validate_date_examples:
  "validate_date ''2024-01-15'' \<and> \<not> validate_date ''2024-1-15'' \<and> validate_date ''2024-13-40''"
  by code_simp

text \<open>
  Claim C7 says that \<^verbatim>\<open>validate_date\<close> accepts exactly the strings of the date shape. The
  pattern ends in \<^verbatim>\<open>$\<close>, which also matches before a final newline: a well-shaped date
  followed by one newline has eleven characters, is not of the shape, and is accepted.
\<close>

theorem validate_date_accepts_trailing_newline:
  "validate_date (''2024-01-15'' @ [CHR 0x0A]) \<and> \<not> date_shape (''2024-01-15'' @ [CHR 0x0A])
   \<and> length (''2024-01-15'' @ [CHR 0x0A]) = 11"
  by code_simp

subsection \<open>Store errors that leave an operation\<close>

text \<open>
  Claim C6 says that no store error leaves an operation. On the seeded store: a failing
  DELETE leaves \<^verbatim>\<open>delete_sale\<close> as an exception; so does a failing commit there, with the
  deletion still pending in the open transaction; a failing query leaves the report, the
  listing at the start of \<^verbatim>\<open>update_sale\<close> and the stock lookup of \<^verbatim>\<open>add_sale\<close> the same way.
\<close>

theorem store_errors_escape_operations:
  "delete_sale (\<lambda>s. s = DelSale) initial_conn [''1''] = (Inl StoreError, initial_conn, [])
   \<and> fst (delete_sale (\<lambda>s. s = Commit) initial_conn [''1'']) = Inl StoreError
   \<and> length (sale_tbl (current (fst (snd (delete_sale (\<lambda>s. s = Commit) initial_conn [''1''])))))
       = 3
   \<and> length (sale_tbl (committed (fst (snd (delete_sale (\<lambda>s. s = Commit) initial_conn [''1''])))))
       = 4
   \<and> print_sale_report (\<lambda>s. s = SelReport) initial_conn = Inl StoreError
   \<and> fst (update_sale (\<lambda>s. s = SelList) initial_conn [''1'', ''50'']) = Inl StoreError
   \<and> fst (add_sale (\<lambda>s. s = SelStock) initial_conn
         [''2024-02-01'', ''M001'', ''B001'', ''2'', ''0'']) = Inl StoreError"
  by code_simp

subsection \<open>Updates and deletions go through\<close>

text \<open>
  With a valid selection, a discount accepted and no store fault, the update is made when
  every book reference is valid and the new discount and total fit 64 bits (otherwise
  \<^verbatim>\<open>OverflowError\<close> leaves the operation with nothing written); the deletion is made.
\<close>

lemma update_sale_succeeds:
  assumes lst: "get_sales_list flt c = Inr sales"
    and ch: "read_choice (length sales) inp = Some (Some idx, inp1)"
    and rd: "read_discount inp1 = Some (nd, rest)"
    and refs: "refs_ok (current c)"
    and ok: "\<not> flt SelSale" "\<not> flt UpdSale" "\<not> flt Commit"
  shows "\<exists>s price. select_sale flt c (l_sid (sales ! idx)) = Inr (Some (s, price))
     \<and> (if in_int64 nd \<and> in_int64 (price * sqty s - nd)
         then \<exists>c'. update_sale flt c inp =
                (Inr (SaleUpdated (l_sid (sales ! idx)) (price * sqty s - nd)), c', rest)
         else update_sale flt c inp = (Inl OverflowError, c, rest))"
proof -
  from read_choice_in_range [OF ch] have idx: "idx < length sales" .
  then have ne: "sales \<noteq> []" by auto
  from listed_sale_exists [OF lst idx] obtain s where
    s: "s \<in> set (sale_tbl (current c))" "sid s = l_sid (sales ! idx)" by blast
  from refs s ok(1) have "\<exists>row. select_sale flt c (l_sid (sales ! idx)) = Inr (Some row)"
    by (rule select_sale_found)
  then obtain s0 price where row: "select_sale flt c (l_sid (sales ! idx)) = Inr (Some (s0, price))"
    by auto
  have "if in_int64 nd \<and> in_int64 (price * sqty s0 - nd)
         then \<exists>c'. update_sale flt c inp =
                (Inr (SaleUpdated (l_sid (sales ! idx)) (price * sqty s0 - nd)), c', rest)
         else update_sale flt c inp = (Inl OverflowError, c, rest)"
    using lst ne ch rd row ok
    by (simp add: update_sale_def update_selected_def set_discount_def commit_def Let_def
        except_store_error_def)
  with row show ?thesis by blast
qed

lemma delete_sale_succeeds:
  assumes lst: "get_sales_list flt c = Inr sales"
    and ch: "read_choice (length sales) inp = Some (Some idx, rest)"
    and ok: "\<not> flt DelSale" "\<not> flt Commit"
  shows "\<exists>c'. delete_sale flt c inp = (Inr (SaleDeleted (l_sid (sales ! idx))), c', rest)"
proof -
  from read_choice_in_range [OF ch] have "sales \<noteq> []" by auto
  with lst ch ok show ?thesis
    by (simp add: delete_sale_def delete_selected_def delete_row_def commit_def)
qed

end
